theory Spec2Isabelle
  imports Complex_Main "HOL-Library.Word"
begin

section \<open>The hardsigmoid kernel (glsl/hardsigmoid\_.glsl)\<close>

text \<open>
  GLSL vectors are tuples.  The components of \<open>gl_GlobalInvocationID\<close> are 32-bit
  unsigned integers; the constructor \<open>ivec3(...)\<close> keeps the bit pattern and reads it
  as a two's complement value, which is \<open>sint\<close>.  The components of \<open>uBlock.size\<close> are
  only compared, never computed with, so they are integers.
\<close>

type_synonym uvec3 = "32 word \<times> 32 word \<times> 32 word"
type_synonym ivec3 = "int \<times> int \<times> int"
type_synonym ivec4 = "int \<times> int \<times> int \<times> int"
type_synonym bvec3 = "bool \<times> bool \<times> bool"
type_synonym vec4 = "real \<times> real \<times> real \<times> real"

text \<open>An \<open>image3D\<close> holds one texel per integer coordinate.\<close>

type_synonym image3D = "ivec3 \<Rightarrow> vec4"

subsection \<open>Floating point\<close>

text \<open>
  A \<open>float\<close> of GLSL is a value of the IEEE 754 format binary32, and a component of a
  texel of the image, whose format is \<open>rgba16f\<close>, is a value of the format binary16.  A
  finite value of either format is the real number it denotes; every binary16 value is
  a binary32 value.  Infinities and NaNs are not modelled: the kernel produces none from
  finite texels.  An arithmetic operation gives the exact result rounded to binary32,
  and a store into the image rounds to binary16, both to the nearest value of the format,
  a tie going to the value with the even significand.  The precision qualifier of the
  image and of the uniform block, \<open>$precision\<close> (hardsigmoid\_.glsl:2), is filled in when
  the shader is built from this source; the local \<open>outval\<close> and the literals have none,
  and the arithmetic is modelled at the full precision of \<open>float\<close>.
\<close>

text \<open>The integer nearest to \<open>y\<close>, the even one of the two when \<open>y\<close> lies halfway.\<close>

definition round_half_even :: "real \<Rightarrow> int" where
  "round_half_even y =
     (let f = \<lfloor>y\<rfloor>; d = y - of_int f in
      if d < 1 / 2 then f else if 1 / 2 < d then f + 1 else if even f then f else f + 1)"

text \<open>The multiple of the quantum \<open>q\<close> nearest to \<open>x\<close>.\<close>

definition round_to :: "real \<Rightarrow> real \<Rightarrow> real" where
  "round_to q x = q * of_int (round_half_even (x / q))"

text \<open>
  The quantum of a format at the magnitude \<open>x\<close>: the spacing of the values of the format
  around \<open>x\<close>.  It is \<open>q\<close>, the spacing of the subnormal values, while \<open>x\<close> is below
  \<open>q * b\<close>, where \<open>b\<close> is two to the number of bits of the significand; it doubles with
  every binade above, \<open>n\<close> times at most.
\<close>

fun quantum :: "nat \<Rightarrow> real \<Rightarrow> real \<Rightarrow> real \<Rightarrow> real" where
  "quantum 0 q b x = q"
| "quantum (Suc n) q b x = (if x < q * b then q else quantum n (2 * q) b x)"

definition round_format :: "nat \<Rightarrow> real \<Rightarrow> real \<Rightarrow> real \<Rightarrow> real" where
  "round_format n q b x = round_to (quantum n q b \<bar>x\<bar>) x"

text \<open>
  binary32 has a significand of 24 bits, its subnormal values are spaced \<open>1 / 2 ^ 149\<close>
  apart, and its quantum doubles 253 times, up to \<open>2 ^ 104\<close>; binary16 has a significand
  of 11 bits, its subnormal values are spaced \<open>1 / 2 ^ 24\<close> apart, and its quantum doubles
  29 times, up to \<open>2 ^ 5\<close>.
\<close>

definition round_binary32 :: "real \<Rightarrow> real" where
  "round_binary32 x = round_format 253 (1 / 2 ^ 149) (2 ^ 24) x"

definition round_binary16 :: "real \<Rightarrow> real" where
  "round_binary16 x = round_format 29 (1 / 2 ^ 24) (2 ^ 11) x"

subsection \<open>The built-in functions and operators\<close>

definition ivec3 :: "uvec3 \<Rightarrow> ivec3" where
  "ivec3 v = (case v of (x, y, z) \<Rightarrow> (sint x, sint y, sint z))"

definition xyz :: "ivec4 \<Rightarrow> ivec3" where
  "xyz v = (case v of (x, y, z, w) \<Rightarrow> (x, y, z))"

definition lessThan3 :: "ivec3 \<Rightarrow> ivec3 \<Rightarrow> bvec3" where
  "lessThan3 a b =
     (case a of (ax, ay, az) \<Rightarrow> case b of (bx, by, bz) \<Rightarrow> (ax < bx, ay < by, az < bz))"

definition all3 :: "bvec3 \<Rightarrow> bool" where
  "all3 b = (case b of (p, q, r) \<Rightarrow> p \<and> q \<and> r)"

text \<open>
  The conversion of a \<open>vec4\<close> to the format \<open>rgba16f\<close> of the image \<open>uOutput\<close>
  (hardsigmoid\_.glsl:8).
\<close>

definition rgba16f :: "vec4 \<Rightarrow> vec4" where
  "rgba16f v =
     (case v of (r, g, b, a) \<Rightarrow>
        (round_binary16 r, round_binary16 g, round_binary16 b, round_binary16 a))"

text \<open>
  \<open>imageLoad\<close> gives the texel as it is stored; \<open>imageStore\<close> stores the data converted to
  the format of the image.
\<close>

definition imageLoad :: "image3D \<Rightarrow> ivec3 \<Rightarrow> vec4" where
  "imageLoad img P = img P"

definition imageStore :: "image3D \<Rightarrow> ivec3 \<Rightarrow> vec4 \<Rightarrow> image3D" where
  "imageStore img P data = img(P := rgba16f data)"

text \<open>
  Arithmetic between a vector and a scalar works on every component, in binary32.
\<close>

definition vec4_div :: "vec4 \<Rightarrow> real \<Rightarrow> vec4" where
  "vec4_div v s =
     (case v of (r, g, b, a) \<Rightarrow>
        (round_binary32 (r / s), round_binary32 (g / s), round_binary32 (b / s),
         round_binary32 (a / s)))"

definition vec4_add :: "vec4 \<Rightarrow> real \<Rightarrow> vec4" where
  "vec4_add v s =
     (case v of (r, g, b, a) \<Rightarrow>
        (round_binary32 (r + s), round_binary32 (g + s), round_binary32 (b + s),
         round_binary32 (a + s)))"

text \<open>
  The built-in \<open>clamp(x, minVal, maxVal)\<close> is \<open>min(max(x, minVal), maxVal)\<close>; it selects one
  of its arguments and rounds nothing.
\<close>

definition clamp :: "real \<Rightarrow> real \<Rightarrow> real \<Rightarrow> real" where
  "clamp x minVal maxVal = min (max x minVal) maxVal"

definition vec4_clamp :: "vec4 \<Rightarrow> real \<Rightarrow> real \<Rightarrow> vec4" where
  "vec4_clamp v minVal maxVal =
     (case v of (r, g, b, a) \<Rightarrow>
        (clamp r minVal maxVal, clamp g minVal maxVal, clamp b minVal maxVal, clamp a minVal maxVal))"

text \<open>
  One invocation of \<open>main\<close> (hardsigmoid\_.glsl:15-22): the uniform block's \<open>size\<close>, the
  invocation's \<open>gl_GlobalInvocationID\<close> and the image \<open>uOutput\<close>, which is returned
  updated.  The literals \<open>6.0\<close>, \<open>0.5\<close>, \<open>0.0\<close> and \<open>1.0\<close> are values of binary32.
\<close>

definition main :: "ivec4 \<Rightarrow> uvec3 \<Rightarrow> image3D \<Rightarrow> image3D" where
  "main uBlock_size gl_GlobalInvocationID uOutput =
     (let pos = ivec3 gl_GlobalInvocationID in
      if all3 (lessThan3 pos (xyz uBlock_size)) then
        (let outval = vec4_add (vec4_div (imageLoad uOutput pos) 6) (1 / 2) in
         imageStore uOutput pos (vec4_clamp outval 0 1))
      else uOutput)"

text \<open>
  A dispatch runs \<open>main\<close> once for every invocation of its grid.  The invocations of one
  dispatch have pairwise different ids; here they run in the order of the list.
\<close>

definition execute :: "ivec4 \<Rightarrow> uvec3 list \<Rightarrow> image3D \<Rightarrow> image3D" where
  "execute uBlock_size ids uOutput = fold (main uBlock_size) ids uOutput"

section \<open>The Vulkan context (api/Context.h)\<close>

subsection \<open>Values passed to the context\<close>

text \<open>A native Vulkan handle; \<open>0\<close> is \<open>VK_NULL_HANDLE\<close>.\<close>

type_synonym handle = nat

text \<open>
  Modelled from the spec: the types \<open>Shader::Layout::Signature\<close>, \<open>Shader::Descriptor\<close>,
  \<open>Shader::WorkGroup\<close> and the bindable resources are declared in headers outside the
  sources at hand.  A binding signature is an ordered sequence of (resource kind,
  pipeline stage, count) tuples; a kernel descriptor is the kernel's identity with its
  specialization constants; a work group is a 3D extent; a bindable resource is an
  image, a buffer or a uniform block.
\<close>

datatype resource_kind = Storage_Image | Storage_Buffer | Uniform_Buffer

type_synonym signature = "(resource_kind \<times> 32 word \<times> nat) list"

type_synonym shader_descriptor = "string \<times> nat list"

type_synonym WorkGroup = "nat \<times> nat \<times> nat"

datatype resource = Resource_Image handle | Resource_Buffer handle | Resource_Uniform handle

text \<open>The flag of the compute stage in \<open>VkShaderStageFlagBits\<close> of the Vulkan API.\<close>

definition VK_SHADER_STAGE_COMPUTE_BIT :: "32 word" where
  "VK_SHADER_STAGE_COMPUTE_BIT = 0x20"

text \<open>
  A parameter block of type \<open>Struct\<close> is the list of the bytes of its object
  representation, so \<open>sizeof(params)\<close> is the length of the list.
\<close>

type_synonym Struct = "8 word list"

definition sizeof :: "Struct \<Rightarrow> nat" where
  "sizeof params = length params"

subsection \<open>Objects\<close>

text \<open>
  Modelled from the spec: \<open>Shader::Layout::Object\<close> (declared in \<open>Shader.h\<close>), the value
  of the descriptor-set layout cache, of which \<open>dispatch\<close> reads the member \<open>handle\<close>.  A
  descriptor-set layout is created for a binding signature and has the slots of that
  signature; the object keeps their number.
\<close>

record Layout_Object =
  handle :: handle
  slot_count :: nat

text \<open>
  Modelled from the spec: \<open>Descriptor::Set\<close> (declared in \<open>Descriptor.h\<close>), a descriptor
  set of a layout, with the number of slots of that layout and the resources bound into
  it, as (slot, resource) in the order of the calls of its member \<open>bind\<close>.
\<close>

record Descriptor_Set =
  set_handle :: handle
  set_layout :: handle
  set_slots :: nat
  bindings :: "(nat \<times> resource) list"

text \<open>
  Modelled from the spec: \<open>Command::Buffer\<close> (declared in \<open>Command.h\<close>) accumulates the
  recorded operations: a push of constants (pipeline layout, stage flags, offset, size,
  bytes), the binding of a pipeline, the binding of a descriptor set, and a dispatch over
  a work group.
\<close>

datatype command =
    Push_Constants handle "32 word" nat nat "8 word list"
  | Bind_Pipeline handle
  | Bind_Descriptor_Set Descriptor_Set
  | Dispatch WorkGroup

record Command_Buffer =
  buffer_handle :: handle
  commands :: "command list"

text \<open>
  Modelled from the spec: a cache (declared outside the sources at hand) maps keys to
  native objects; here it is the list of its entries in the order of their creation.
\<close>

type_synonym ('k, 'v) cache = "('k \<times> 'v) list"

text \<open>
  Modelled from the spec: \<open>Shader\<close> (declared in \<open>Shader.h\<close>) has the cache \<open>layout.cache\<close>
  from binding signatures to descriptor-set layouts and the cache \<open>cache\<close> from kernel
  descriptors to shader modules.
\<close>

record Shader =
  shader_layout_cache :: "(signature, Layout_Object) cache"
  shader_cache :: "(shader_descriptor, handle) cache"

text \<open>
  Modelled from the spec: \<open>Pipeline\<close> (declared in \<open>Pipeline.h\<close>) has the cache
  \<open>layout.cache\<close> from (descriptor-set layout, push-constant byte size) to pipeline
  layouts and the cache \<open>cache\<close> from (pipeline layout, shader module, local work group
  size) to pipelines.
\<close>

record Pipeline =
  pipeline_layout_cache :: "(handle \<times> nat, handle) cache"
  pipeline_cache :: "(handle \<times> handle \<times> WorkGroup, handle) cache"

text \<open>
  Modelled from the spec: \<open>Descriptor\<close> (declared in \<open>Descriptor.h\<close>) has the \<open>pool\<close> that
  descriptor sets are allocated from; here it is the list of the handles of the sets
  allocated from it.
\<close>

record Descriptor =
  pool :: "handle list"

text \<open>
  The data members of \<open>Context\<close> in the order of their declaration (Context.h:66-73);
  the member \<open>m_\<close> of the source is the field \<open>m'\<close>.  The adapter is the number of the
  physical device; of the command and resource subsystems, which \<open>dispatch\<close> does not
  use, only the handles they own are kept.
\<close>

record Context =
  adapter' :: nat
  device' :: handle
  queue' :: handle
  command' :: "handle list"
  shader' :: Shader
  pipeline' :: Pipeline
  descriptor' :: Descriptor
  resource' :: "handle list"

text \<open>
  Modelled from the spec: \<open>GPU\<close> (declared in \<open>Common.h\<close>) is the trio of the adapter, the
  logical device and the queue.
\<close>

record GPU =
  gpu_adapter :: nat
  gpu_device :: handle
  gpu_queue :: handle

subsection \<open>The state around a call\<close>

text \<open>
  What the calls of the context do outside the objects they are given is recorded as a
  sequence of events: each retrieval from a cache with its key and its result, each
  allocation of a descriptor set from a layout, each binding of a resource into a set,
  each operation recorded into a command buffer, and each submission to the queue and
  each wait for it.
\<close>

datatype event =
    Retrieve_Shader_Layout signature Layout_Object
  | Retrieve_Pipeline_Layout "handle \<times> nat" handle
  | Retrieve_Shader shader_descriptor handle
  | Retrieve_Pipeline "handle \<times> handle \<times> WorkGroup" handle
  | Allocate handle handle
  | Bind handle nat resource
  | Record handle command
  | Submit handle
  | Wait

text \<open>
  The state of the process: the \<open>Context\<close> objects by address, the address of the
  storage of the process-wide singleton, the adapter the runtime selects for it, the last
  handle the driver has given out, and the events so far.
\<close>

record world =
  heap :: "nat \<Rightarrow> Context option"
  singleton :: nat
  adapter :: nat
  next_handle :: handle
  trace :: "event list"

text \<open>
  The failures: the exception of a failed internal assertion, the use of a \<open>Context*\<close>
  that points to no object, and the failure of a binding that does not fit the layout.
\<close>

datatype error = Internal_Assert | Null_Pointer | Binding_Error

subsection \<open>The calls of dispatch into the subsystems\<close>

text \<open>
  The functions that \<open>Context.h\<close> calls and that are defined outside the sources at hand.
  The calls into the Vulkan driver are taken to succeed.  A function that can fail
  returns the error with the state it fails in.
\<close>

text \<open>
  Modelled from the spec: \<open>Cache::retrieve\<close>, defined outside the sources at hand, is
  get-or-create: a key that has an entry resolves to the object of that entry and nothing
  is created; a key that has none has a native object created for it (\<open>create\<close>, with a
  handle the driver has not given out before), which is entered into the cache and
  returned.
\<close>

definition retrieve ::
  "('k \<Rightarrow> 'v \<Rightarrow> event) \<Rightarrow> ('k \<Rightarrow> handle \<Rightarrow> 'v) \<Rightarrow> ('k, 'v) cache \<Rightarrow> 'k \<Rightarrow> world \<Rightarrow>
   'v \<times> ('k, 'v) cache \<times> world" where
  "retrieve ev create cache key w =
     (case map_of cache key of
        Some object \<Rightarrow> (object, cache, w\<lparr>trace := trace w @ [ev key object]\<rparr>)
      | None \<Rightarrow>
          (let h = Suc (next_handle w); object = create key h in
           (object, cache @ [(key, object)],
            w\<lparr>next_handle := h, trace := trace w @ [ev key object]\<rparr>)))"

text \<open>
  Modelled from the spec: recording an operation appends it to the operations that the
  command buffer has accumulated.
\<close>

definition record_command :: "Command_Buffer \<Rightarrow> command \<Rightarrow> world \<Rightarrow> Command_Buffer \<times> world" where
  "record_command command_buffer c w =
     (command_buffer\<lparr>commands := commands command_buffer @ [c]\<rparr>,
      w\<lparr>trace := trace w @ [Record (buffer_handle command_buffer) c]\<rparr>)"

text \<open>
  Modelled from the spec: \<open>vkCmdPushConstants\<close> of the Vulkan API records the push of the
  \<open>n\<close> bytes (its parameter \<open>size\<close>) at \<open>pValues\<close>.
\<close>

definition vkCmdPushConstants ::
  "Command_Buffer \<Rightarrow> handle \<Rightarrow> 32 word \<Rightarrow> nat \<Rightarrow> nat \<Rightarrow> 8 word list \<Rightarrow> world \<Rightarrow>
   Command_Buffer \<times> world" where
  "vkCmdPushConstants command_buffer layout stageFlags offset n pValues w =
     record_command command_buffer
       (Push_Constants layout stageFlags offset n (take n pValues)) w"

text \<open>
  Modelled from the spec: \<open>Command::Buffer::bind\<close> on a pipeline records the binding of
  the pipeline.
\<close>

definition bind_pipeline :: "Command_Buffer \<Rightarrow> handle \<Rightarrow> world \<Rightarrow> Command_Buffer \<times> world" where
  "bind_pipeline command_buffer pipeline w =
     record_command command_buffer (Bind_Pipeline pipeline) w"

text \<open>
  Modelled from the spec: \<open>Command::Buffer::bind\<close> on a descriptor set records the binding
  of the set.  A dispatch whose resource-argument count differs from the slot count of
  its signature must fail detectably at bind time (section 8 of the spec): the binding of
  a set in which a slot of the layout has no resource bound fails.
\<close>

definition bind_set ::
  "Command_Buffer \<Rightarrow> Descriptor_Set \<Rightarrow> world \<Rightarrow> (error \<times> world) + (Command_Buffer \<times> world)" where
  "bind_set command_buffer descriptor_set w =
     (if list_all (\<lambda>slot. slot \<in> fst ` set (bindings descriptor_set))
           [0..<set_slots descriptor_set]
      then Inr (record_command command_buffer (Bind_Descriptor_Set descriptor_set) w)
      else Inl (Binding_Error, w))"

text \<open>
  Modelled from the spec: \<open>Command::Buffer::dispatch\<close> records the dispatch over a work
  group.
\<close>

definition buffer_dispatch :: "Command_Buffer \<Rightarrow> WorkGroup \<Rightarrow> world \<Rightarrow> Command_Buffer \<times> world" where
  "buffer_dispatch command_buffer work_group w =
     record_command command_buffer (Dispatch work_group) w"

text \<open>
  Modelled from the spec: \<open>Descriptor::Pool::allocate\<close> allocates a descriptor set from
  a layout on demand; the set has a handle that the driver has not given out before, and
  nothing bound.
\<close>

definition allocate :: "Descriptor \<Rightarrow> Layout_Object \<Rightarrow> world \<Rightarrow> Descriptor_Set \<times> Descriptor \<times> world" where
  "allocate descriptor shader_layout w =
     (let h = Suc (next_handle w) in
      (\<lparr>set_handle = h, set_layout = handle shader_layout,
        set_slots = slot_count shader_layout, bindings = []\<rparr>,
       descriptor\<lparr>pool := pool descriptor @ [h]\<rparr>,
       w\<lparr>next_handle := h, trace := trace w @ [Allocate (handle shader_layout) h]\<rparr>))"

text \<open>
  Modelled from the spec: \<open>Descriptor::Set::bind\<close> binds a resource to a slot of the set.
  A dispatch whose resource-argument count differs from the slot count of its signature
  must fail detectably at bind time, never silently bind a wrong slot (section 8 of the
  spec): the binding to a slot that the layout of the set does not have fails.
\<close>

definition set_bind ::
  "Descriptor_Set \<Rightarrow> nat \<Rightarrow> resource \<Rightarrow> world \<Rightarrow> (error \<times> world) + (Descriptor_Set \<times> world)" where
  "set_bind descriptor_set binding r w =
     (if binding < set_slots descriptor_set
      then Inr (descriptor_set\<lparr>bindings := bindings descriptor_set @ [(binding, r)]\<rparr>,
                w\<lparr>trace := trace w @ [Bind (set_handle descriptor_set) binding r]\<rparr>)
      else Inl (Binding_Error, w))"

text \<open>
  Modelled from the spec: the macro \<open>TORCH_INTERNAL_ASSERT_DEBUG_ONLY\<close>, defined outside
  the sources at hand, is a fatal assertion in a debug build and is compiled out in a
  release build.  The first argument tells whether the build is a debug build.
\<close>

definition TORCH_INTERNAL_ASSERT_DEBUG_ONLY :: "bool \<Rightarrow> bool \<Rightarrow> error + unit" where
  "TORCH_INTERNAL_ASSERT_DEBUG_ONLY debug cond =
     (if debug \<and> \<not> cond then Inl Internal_Assert else Inr ())"

text \<open>
  Modelled from the spec: the constructor \<open>Context(const Adapter&)\<close> (declared at
  Context.h:29) creates the logical device and the compute queue for the adapter, then the
  subsystems, whose caches and pool are empty.
\<close>

definition Context_new :: "nat \<Rightarrow> world \<Rightarrow> Context \<times> world" where
  "Context_new a w =
     (let device = Suc (next_handle w); queue = Suc device in
      (\<lparr>adapter' = a, device' = device, queue' = queue, command' = [],
        shader' = \<lparr>shader_layout_cache = [], shader_cache = []\<rparr>,
        pipeline' = \<lparr>pipeline_layout_cache = [], pipeline_cache = []\<rparr>,
        descriptor' = \<lparr>pool = []\<rparr>, resource' = []\<rparr>,
       w\<lparr>next_handle := queue\<rparr>))"

text \<open>
  Modelled from the spec: \<open>api::context()\<close> (declared at Context.h:77) constructs the
  process-wide singleton on the first call and returns its address on every call.
\<close>

definition api_context :: "world \<Rightarrow> nat \<times> world" where
  "api_context w =
     (case heap w (singleton w) of
        Some c \<Rightarrow> (singleton w, w)
      | None \<Rightarrow>
          (case Context_new (adapter w) w of
             (c, w') \<Rightarrow> (singleton w, w'\<lparr>heap := (heap w')(singleton w \<mapsto> c)\<rparr>)))"

subsection \<open>The members of Context\<close>

text \<open>\<open>Context::device\<close> (Context.h:112-115) and \<open>Context::queue\<close> (Context.h:117-120).\<close>

definition device :: "bool \<Rightarrow> Context \<Rightarrow> error + handle" where
  "device debug this =
     (case TORCH_INTERNAL_ASSERT_DEBUG_ONLY debug (device' this \<noteq> 0) of
        Inl e \<Rightarrow> Inl e
      | Inr _ \<Rightarrow> Inr (device' this))"

definition queue :: "bool \<Rightarrow> Context \<Rightarrow> error + handle" where
  "queue debug this =
     (case TORCH_INTERNAL_ASSERT_DEBUG_ONLY debug (queue' this \<noteq> 0) of
        Inl e \<Rightarrow> Inl e
      | Inr _ \<Rightarrow> Inr (queue' this))"

text \<open>\<open>Context::gpu\<close> (Context.h:83-90); the initializers are evaluated from left to right.\<close>

definition gpu :: "bool \<Rightarrow> Context \<Rightarrow> error + GPU" where
  "gpu debug this =
     (case device debug this of
        Inl e \<Rightarrow> Inl e
      | Inr d \<Rightarrow>
          (case queue debug this of
             Inl e \<Rightarrow> Inl e
           | Inr q \<Rightarrow> Inr \<lparr>gpu_adapter = adapter' this, gpu_device = d, gpu_queue = q\<rparr>))"

text \<open>
  \<open>detail::bind\<close> (Context.h:124-135): the elements of the braced initializer are evaluated
  in their order, so the calls of \<open>descriptor_set.bind(Indices, arguments)\<close> happen from
  the first index and argument to the last.  A call that fails ends the function.
\<close>

fun bind ::
  "Descriptor_Set \<Rightarrow> nat list \<Rightarrow> resource list \<Rightarrow> world \<Rightarrow>
   (error \<times> world) + (Descriptor_Set \<times> world)" where
  "bind descriptor_set (i # Indices) (a # arguments) w =
     (case set_bind descriptor_set i a w of
        Inl failure \<Rightarrow> Inl failure
      | Inr (descriptor_set, w) \<Rightarrow> bind descriptor_set Indices arguments w)"
| "bind descriptor_set _ _ w = Inr (descriptor_set, w)"

text \<open>\<open>std::index_sequence_for<Arguments...>\<close>: the indices \<open>0, ..., n - 1\<close> of \<open>n\<close> arguments.\<close>

definition index_sequence_for :: "'a list \<Rightarrow> nat list" where
  "index_sequence_for arguments = [0..<length arguments]"

text \<open>
  \<open>Context::dispatch\<close> (Context.h:139-192).  The first argument tells whether the build is
  a debug build, \<open>this\<close> is the address of the object the member is called on, and the
  command buffer, passed by reference, is returned with the state.  The references
  \<open>descriptor\<close>, \<open>pipeline\<close> and \<open>shader\<close> to the subsystems of \<open>*context\<close> are local
  values that are written back to \<open>*context\<close> after the allocation of the descriptor
  set, the last call that changes a subsystem.  An exception leaves with the state it was
  raised in.  \<open>gpu_trio\<close> is the local \<open>gpu\<close> of the source, which is not used after its
  initialization.
\<close>

definition dispatch ::
  "bool \<Rightarrow> nat \<Rightarrow> world \<Rightarrow> Command_Buffer \<Rightarrow> signature \<Rightarrow> shader_descriptor \<Rightarrow> WorkGroup \<Rightarrow>
   WorkGroup \<Rightarrow> Struct \<Rightarrow> resource list \<Rightarrow> (error \<times> world) + (Command_Buffer \<times> world)" where
  "dispatch debug this w command_buffer shader_layout_signature shader_descriptor
     global_work_group local_work_group_size params arguments =
     (case api_context w of (context, w) \<Rightarrow>
      case heap w context of
        None \<Rightarrow> Inl (Null_Pointer, w)
      | Some c \<Rightarrow>
      case gpu debug c of
        Inl e \<Rightarrow> Inl (e, w)
      | Inr gpu_trio \<Rightarrow>
      let descriptor = descriptor' c; pipeline = pipeline' c; shader = shader' c in
      case retrieve Retrieve_Shader_Layout (\<lambda>key h. \<lparr>handle = h, slot_count = length key\<rparr>)
             (shader_layout_cache shader) shader_layout_signature w of
        (shader_layout, cache, w) \<Rightarrow>
      let shader = shader\<lparr>shader_layout_cache := cache\<rparr> in
      case retrieve Retrieve_Pipeline_Layout (\<lambda>key h. h)
             (pipeline_layout_cache pipeline) (handle shader_layout, sizeof params) w of
        (pipe_layout, cache, w) \<Rightarrow>
      let pipeline = pipeline\<lparr>pipeline_layout_cache := cache\<rparr> in
      case vkCmdPushConstants command_buffer pipe_layout VK_SHADER_STAGE_COMPUTE_BIT 0
             (sizeof params) params w of
        (command_buffer, w) \<Rightarrow>
      case retrieve Retrieve_Shader (\<lambda>key h. h) (shader_cache shader) shader_descriptor w of
        (shader_module, cache, w) \<Rightarrow>
      let shader = shader\<lparr>shader_cache := cache\<rparr> in
      case retrieve Retrieve_Pipeline (\<lambda>key h. h) (pipeline_cache pipeline)
             (pipe_layout, shader_module, local_work_group_size) w of
        (pipeline_handle, cache, w) \<Rightarrow>
      let pipeline = pipeline\<lparr>pipeline_cache := cache\<rparr> in
      case bind_pipeline command_buffer pipeline_handle w of
        (command_buffer, w) \<Rightarrow>
      case allocate descriptor shader_layout w of
        (descriptor_set, descriptor, w) \<Rightarrow>
      let w = w\<lparr>heap := (heap w)(context \<mapsto>
                c\<lparr>shader' := shader, pipeline' := pipeline, descriptor' := descriptor\<rparr>)\<rparr> in
      case bind descriptor_set (index_sequence_for arguments) arguments w of
        Inl failure \<Rightarrow> Inl failure
      | Inr (descriptor_set, w) \<Rightarrow>
      case bind_set command_buffer descriptor_set w of
        Inl failure \<Rightarrow> Inl failure
      | Inr (command_buffer, w) \<Rightarrow>
      case buffer_dispatch command_buffer global_work_group w of
        (command_buffer, w) \<Rightarrow>
      Inr (command_buffer, w))"

subsection \<open>The lifetime of the members\<close>

text \<open>
  The data members of \<open>Context\<close> in the order of their declaration (Context.h:66-73,
  under the comment that construction and destruction order matters).
\<close>

datatype member =
    Adapter_member | Device_member | Queue_member | Command_member
  | Shader_member | Pipeline_member | Descriptor_member | Resource_member

definition members :: "member list" where
  "members =
     [Adapter_member, Device_member, Queue_member, Command_member,
      Shader_member, Pipeline_member, Descriptor_member, Resource_member]"

text \<open>
  The rule of C++ for the members of a class: they are constructed in the order of their
  declaration; when the construction of one of them throws, the construction ends there;
  and the members that were constructed are destroyed in the reverse order of their
  construction, by the destructor or when the exception leaves the constructor.
  \<open>throws m\<close> tells whether the construction of the member \<open>m\<close> throws.
\<close>

fun construct :: "(member \<Rightarrow> bool) \<Rightarrow> member list \<Rightarrow> member list" where
  "construct throws [] = []"
| "construct throws (m # ms) = (if throws m then [] else m # construct throws ms)"

definition destroy :: "member list \<Rightarrow> member list" where
  "destroy constructed = rev constructed"

text \<open>The members of a \<open>Context\<close> in the order of their release.\<close>

definition teardown :: "(member \<Rightarrow> bool) \<Rightarrow> member list" where
  "teardown throws = destroy (construct throws members)"

section \<open>Notions of the statements\<close>



text \<open>\<open>a\<close> is released, and \<open>b\<close> is released after it.\<close>

definition released_before :: "member \<Rightarrow> member \<Rightarrow> member list \<Rightarrow> bool" where
  "released_before a b released \<longleftrightarrow> b \<in> set (tl (dropWhile (\<lambda>m. m \<noteq> a) released))"

text \<open>A cache after any number of further retrievals.\<close>

inductive grown :: "('k, 'v) cache \<Rightarrow> ('k, 'v) cache \<Rightarrow> bool" where
  grown_refl: "grown cache cache"
| grown_retrieve:
    "grown cache cache1 \<Longrightarrow> retrieve ev create cache1 key w = (object, cache2, w') \<Longrightarrow>
     grown cache cache2"

text \<open>The state after any number of further calls of \<open>dispatch\<close>, returned or failed.\<close>

inductive later :: "bool \<Rightarrow> world \<Rightarrow> world \<Rightarrow> bool" for debug where
  later_refl: "later debug w w"
| later_dispatch:
    "later debug w w1 \<Longrightarrow>
     dispatch debug this w1 cb sig desc g l params args = Inr (cb', w2) \<Longrightarrow>
     later debug w w2"
| later_failed:
    "later debug w w1 \<Longrightarrow>
     dispatch debug this w1 cb sig desc g l params args = Inl (e, w2) \<Longrightarrow>
     later debug w w2"

text \<open>The events that submit work to the queue or wait for it.\<close>

fun is_submission :: "event \<Rightarrow> bool" where
  "is_submission (Submit _) = True"
| "is_submission Wait = True"
| "is_submission _ = False"

text \<open>The four operations that one call of \<open>dispatch\<close> records.\<close>

definition dispatch_commands ::
  "handle \<Rightarrow> Struct \<Rightarrow> handle \<Rightarrow> Descriptor_Set \<Rightarrow> WorkGroup \<Rightarrow> command list" where
  "dispatch_commands pl params p ds g =
     [Push_Constants pl VK_SHADER_STAGE_COMPUTE_BIT 0 (sizeof params) params,
      Bind_Pipeline p, Bind_Descriptor_Set ds, Dispatch g]"

text \<open>
  The debug assertions of \<open>Context::device\<close> and \<open>Context::queue\<close> pass on the singleton:
  it is not constructed yet, or the build is a release build, or its device and its queue
  are set.
\<close>

definition assertions_pass :: "bool \<Rightarrow> world \<Rightarrow> bool" where
  "assertions_pass debug w =
     (case heap w (singleton w) of
        None \<Rightarrow> True
      | Some c \<Rightarrow> debug \<longrightarrow> device' c \<noteq> 0 \<and> queue' c \<noteq> 0)"

text \<open>
  Every descriptor-set layout in the cache of the singleton has the slots of the
  signature it is the entry of, as every layout that \<open>dispatch\<close> has created does.
\<close>

definition layouts_consistent :: "world \<Rightarrow> bool" where
  "layouts_consistent w =
     (case heap w (singleton w) of
        None \<Rightarrow> True
      | Some c \<Rightarrow>
          list_all (\<lambda>(key, object). slot_count object = length key)
            (shader_layout_cache (shader' c)))"

text \<open>A process in which the singleton has not been constructed yet.\<close>

definition w_init :: world where
  "w_init = \<lparr>heap = (\<lambda>_. None), singleton = 0, adapter = 0, next_handle = 0, trace = []\<rparr>"

section \<open>Properties of the rounding\<close>

lemma round_half_even_cases: "round_half_even y = \<lfloor>y\<rfloor> \<or> round_half_even y = \<lfloor>y\<rfloor> + 1"
  by (simp add: round_half_even_def Let_def)


lemma round_half_even_of_int: "round_half_even (of_int k) = k"
  by (simp add: round_half_even_def)

lemma round_half_even_mono: "y \<le> z \<Longrightarrow> round_half_even y \<le> round_half_even z"
proof -
  assume yz: "y \<le> z"
  then have f: "\<lfloor>y\<rfloor> \<le> \<lfloor>z\<rfloor>" by (rule floor_mono)
  show ?thesis
  proof (cases "\<lfloor>y\<rfloor> < \<lfloor>z\<rfloor>")
    case True
    have "round_half_even y \<le> \<lfloor>y\<rfloor> + 1" using round_half_even_cases [of y] by auto
    also have "\<dots> \<le> \<lfloor>z\<rfloor>" using True by simp
    also have "\<dots> \<le> round_half_even z" using round_half_even_cases [of z] by auto
    finally show ?thesis .
  next
    case False
    with f have eq: "\<lfloor>y\<rfloor> = \<lfloor>z\<rfloor>" by simp
    show ?thesis
      using yz unfolding round_half_even_def Let_def eq
      by (auto split: if_splits)
  qed
qed



lemma round_to_mono: "0 < q \<Longrightarrow> x \<le> y \<Longrightarrow> round_to q x \<le> round_to q y"
  unfolding round_to_def
  by (intro mult_left_mono) (simp_all add: round_half_even_mono divide_right_mono)

lemma round_to_multiple: "0 < q \<Longrightarrow> round_to q (q * of_int k) = q * of_int k"
  by (simp add: round_to_def round_half_even_of_int)

lemma quantum_power:
  "j \<le> n \<Longrightarrow> x < q * 2 ^ j * b \<Longrightarrow> \<exists>i\<le>j. quantum n q b x = q * 2 ^ i"
proof (induction n arbitrary: q j)
  case 0
  then show ?case by simp
next
  case (Suc n)
  show ?case
  proof (cases "x < q * b")
    case True
    then have "quantum (Suc n) q b x = q * 2 ^ 0" by simp
    then show ?thesis by blast
  next
    case False
    with Suc.prems(2) have "j \<noteq> 0" by (cases j) auto
    then obtain k where k: "j = Suc k" by (cases j) auto
    with Suc.prems have "k \<le> n" and "x < (2 * q) * 2 ^ k * b" by simp_all
    from Suc.IH [OF this] obtain i where "i \<le> k" "quantum n (2 * q) b x = (2 * q) * 2 ^ i"
      by blast
    with False k have "Suc i \<le> j" and "quantum (Suc n) q b x = q * 2 ^ Suc i" by simp_all
    then show ?thesis by blast
  qed
qed




lemma multiple_of_quantum:
  "i \<le> j \<Longrightarrow> q * 2 ^ j * of_int m = (q * 2 ^ i) * of_int (2 ^ (j - i) * m)" for q :: real
proof -
  assume "i \<le> j"
  then have "(2::real) ^ j = 2 ^ i * 2 ^ (j - i)" by (simp flip: power_add)
  then show ?thesis by simp
qed

lemma round_format_le:
  assumes "j \<le> n" and "0 < q" and "\<bar>x\<bar> < q * 2 ^ j * b" and "x \<le> q * 2 ^ j * of_int m"
  shows "round_format n q b x \<le> q * 2 ^ j * of_int m"
proof -
  from quantum_power [OF assms(1,3)] obtain i where
    i: "i \<le> j" "quantum n q b \<bar>x\<bar> = q * 2 ^ i" by blast
  have pos: "0 < q * 2 ^ i" using assms(2) by simp
  have "round_format n q b x \<le> round_to (q * 2 ^ i) (q * 2 ^ j * of_int m)"
    unfolding round_format_def i(2) by (rule round_to_mono [OF pos assms(4)])
  also have "\<dots> = q * 2 ^ j * of_int m"
    unfolding multiple_of_quantum [OF i(1)] by (rule round_to_multiple [OF pos])
  finally show ?thesis .
qed

lemma round_format_ge:
  assumes "j \<le> n" and "0 < q" and "\<bar>x\<bar> < q * 2 ^ j * b" and "q * 2 ^ j * of_int m \<le> x"
  shows "q * 2 ^ j * of_int m \<le> round_format n q b x"
proof -
  from quantum_power [OF assms(1,3)] obtain i where
    i: "i \<le> j" "quantum n q b \<bar>x\<bar> = q * 2 ^ i" by blast
  have pos: "0 < q * 2 ^ i" using assms(2) by simp
  have "q * 2 ^ j * of_int m = round_to (q * 2 ^ i) (q * 2 ^ j * of_int m)"
    unfolding multiple_of_quantum [OF i(1)] by (rule round_to_multiple [OF pos, symmetric])
  also have "\<dots> \<le> round_format n q b x"
    unfolding round_format_def i(2) by (rule round_to_mono [OF pos assms(4)])
  finally show ?thesis .
qed

lemma round_format_exact:
  assumes "j \<le> n" and "0 < q" and "\<bar>x\<bar> < q * 2 ^ j * b" and "x = q * 2 ^ j * of_int m"
  shows "round_format n q b x = x"
  using round_format_le [OF assms(1-3), of m] round_format_ge [OF assms(1-3), of m] assms(4)
  by simp














section \<open>Properties of the kernel\<close>


lemma main_other: "P \<noteq> ivec3 i \<Longrightarrow> main s i img P = img P"
  by (simp add: main_def Let_def imageStore_def)

lemma main_outside: "\<not> all3 (lessThan3 (ivec3 i) (xyz s)) \<Longrightarrow> main s i img = img"
  by (simp add: main_def Let_def)


lemma execute_Nil: "execute s [] img = img"
  by (simp add: execute_def)

lemma execute_Cons: "execute s (i # ids) img = execute s ids (main s i img)"
  by (simp add: execute_def)


lemma execute_outside:
  "\<not> all3 (lessThan3 P (xyz s)) \<Longrightarrow> execute s ids img P = img P"
proof (induction ids arbitrary: img)
  case Nil
  show ?case by (simp add: execute_Nil)
next
  case (Cons i ids)
  have "main s i img P = img P"
  proof (cases "P = ivec3 i")
    case True
    with Cons.prems show ?thesis by (simp add: main_outside)
  next
    case False
    then show ?thesis by (rule main_other)
  qed
  then show ?case using Cons.IH [OF Cons.prems, of "main s i img"]
    by (simp add: execute_Cons)
qed


text \<open>
  C9.  An invocation whose position is not componentwise below the extents leaves the
  whole image as it was; an invocation changes no texel but the one at its own position;
  and after all the invocations of a dispatch, every texel whose position is not
  componentwise below the extents holds the value it held before.
\<close>

theorem hardsigmoid_writes_only_within_extents:
  "(\<not> all3 (lessThan3 (ivec3 i) (xyz s)) \<longrightarrow> main s i img = img) \<and>
   (P \<noteq> ivec3 i \<longrightarrow> main s i img P = img P) \<and>
   (\<not> all3 (lessThan3 P (xyz s)) \<longrightarrow> execute s ids img P = img P)"
  using main_outside [of i s img] main_other [of P i s img]
    execute_outside [of P s ids img]
  by blast

theorem hardsigmoid_writes_only_within_extents_witness:
  "\<not> all3 (lessThan3 (ivec3 (5, 0, 0)) (xyz (2, 1, 1, 0))) \<and>
   main (2, 1, 1, 0) (5, 0, 0) (\<lambda>_. (3, 3, 3, 3)) = (\<lambda>_. (3, 3, 3, 3)) \<and>
   (5, 0, 0) \<noteq> ivec3 (1, 0, 0) \<and>
   main (2, 1, 1, 0) (1, 0, 0) (\<lambda>_. (3, 3, 3, 3)) (5, 0, 0) = (3, 3, 3, 3) \<and>
   \<not> all3 (lessThan3 (5, 0, 0) (xyz (2, 1, 1, 0))) \<and>
   execute (2, 1, 1, 0) [(0, 0, 0), (1, 0, 0), (5, 0, 0)] (\<lambda>_. (3, 3, 3, 3)) (5, 0, 0) = (3, 3, 3, 3)"
  using hardsigmoid_writes_only_within_extents
    [of "(5, 0, 0)" "(2, 1, 1, 0)" "\<lambda>_. (3, 3, 3, 3)" "(5, 0, 0)"
        "[(0, 0, 0), (1, 0, 0), (5, 0, 0)]"]
    hardsigmoid_writes_only_within_extents
    [of "(1, 0, 0)" "(2, 1, 1, 0)" "\<lambda>_. (3, 3, 3, 3)" "(5, 0, 0)" "[]"]
  by (simp add: all3_def lessThan3_def ivec3_def xyz_def)




section \<open>Properties of the calls into the subsystems\<close>

lemma map_of_snoc:
  "map_of (cache @ [(k, v)]) k' =
     (case map_of cache k' of Some x \<Rightarrow> Some x | None \<Rightarrow> if k' = k then Some v else None)"
  by (induction cache) auto

lemma retrieve_props:
  assumes "retrieve ev mk cache key w = (v, cache', w')"
  shows "map_of cache' key = Some v"
    and "map_of cache k = Some x \<Longrightarrow> map_of cache' k = Some x"
    and "heap w' = heap w" and "singleton w' = singleton w" and "adapter w' = adapter w"
    and "trace w' = trace w @ [ev key v]"
    and "next_handle w \<le> next_handle w'"
    and "map_of cache key = Some v0 \<Longrightarrow> v = v0 \<and> cache' = cache \<and> next_handle w' = next_handle w"
  using assms
  by (auto simp: retrieve_def Let_def map_of_snoc simp del: map_of_append split: option.splits)

lemma retrieve_distinct:
  assumes "retrieve ev mk cache key w = (v, cache', w')" and "distinct (map fst cache)"
  shows "distinct (map fst cache')"
  using assms
  by (auto simp: retrieve_def Let_def map_of_eq_None_iff split: option.splits)

lemma retrieve_list_all:
  assumes "retrieve ev mk cache key w = (v, cache', w')" and "list_all P cache"
    and "P (key, mk key (Suc (next_handle w)))"
  shows "list_all P cache'" and "P (key, v)"
proof -
  show "list_all P cache'"
    using assms by (auto simp: retrieve_def Let_def split: option.splits)
  show "P (key, v)"
  proof (cases "map_of cache key")
    case None
    with assms show ?thesis by (auto simp: retrieve_def Let_def)
  next
    case (Some x)
    then have "(key, x) \<in> set cache" by (rule map_of_SomeD)
    with assms(2) have "P (key, x)" by (simp add: list_all_iff)
    with assms(1) Some show ?thesis by (simp add: retrieve_def)
  qed
qed

lemma record_command_props:
  assumes "record_command cb c w = (cb', w')"
  shows "commands cb' = commands cb @ [c]" and "buffer_handle cb' = buffer_handle cb"
    and "heap w' = heap w" and "singleton w' = singleton w" and "adapter w' = adapter w"
    and "trace w' = trace w @ [Record (buffer_handle cb) c]"
    and "next_handle w' = next_handle w"
  using assms by (auto simp: record_command_def)

lemma allocate_props:
  assumes "allocate d sl w = (s, d', w')"
  shows "s = \<lparr>set_handle = Suc (next_handle w), set_layout = handle sl,
              set_slots = slot_count sl, bindings = []\<rparr>"
    and "pool d' = pool d @ [Suc (next_handle w)]"
    and "heap w' = heap w" and "singleton w' = singleton w" and "adapter w' = adapter w"
    and "trace w' = trace w @ [Allocate (handle sl) (Suc (next_handle w))]"
    and "next_handle w' = Suc (next_handle w)"
  using assms by (auto simp: allocate_def Let_def)

text \<open>
  \<open>bind\<close> in closed form: it binds every pair when every index is a slot of the set, and
  otherwise fails at the first index that is not one, the pairs before it being bound.
\<close>

lemma bind_closed:
  "bind s is as w =
     (if \<forall>i\<in>set (map fst (zip is as)). i < set_slots s
      then Inr (s\<lparr>bindings := bindings s @ zip is as\<rparr>,
                w\<lparr>trace := trace w @ map (\<lambda>(i, a). Bind (set_handle s) i a) (zip is as)\<rparr>)
      else Inl (Binding_Error,
                w\<lparr>trace := trace w @ map (\<lambda>(i, a). Bind (set_handle s) i a)
                     (takeWhile (\<lambda>(i, a). i < set_slots s) (zip is as))\<rparr>))"
proof (induction s "is" as w rule: bind.induct)
  case (1 descriptor_set i Indices a arguments w)
  show ?case
  proof (cases "i < set_slots descriptor_set")
    case True
    then have sb: "set_bind descriptor_set i a w =
        Inr (descriptor_set\<lparr>bindings := bindings descriptor_set @ [(i, a)]\<rparr>,
             w\<lparr>trace := trace w @ [Bind (set_handle descriptor_set) i a]\<rparr>)"
      by (simp add: set_bind_def)
    show ?thesis
      using True "1.IH" [OF sb refl] by (simp add: sb)
  next
    case False
    then show ?thesis by (simp add: set_bind_def)
  qed
qed simp_all

lemma zip_upt_nth: "zip [0..<length xs] xs = map (\<lambda>i. (i, xs ! i)) [0..<length xs]"
  by (rule nth_equalityI) simp_all

lemma bind_events:
  "map (\<lambda>(i, a). Bind h i a) (zip [0..<length xs] xs) = map (\<lambda>i. Bind h i (xs ! i)) [0..<length xs]"
  by (simp add: zip_upt_nth o_def)

lemma takeWhile_upt: "takeWhile (\<lambda>i. i < k) [0..<n] = [0..<min n k]"
proof (induction n)
  case 0
  show ?case by simp
next
  case (Suc n)
  show ?case
  proof (cases "n < k")
    case True
    then have "\<forall>i\<in>set [0..<n]. i < k" by simp
    with True Suc show ?thesis by (simp add: takeWhile_append2 min_def)
  next
    case False
    then have "takeWhile (\<lambda>i. i < k) ([0..<n] @ [n]) = takeWhile (\<lambda>i. i < k) [0..<n]"
      by (induction "[0..<n]") (simp_all add: takeWhile_tail)
    with False Suc show ?thesis by (simp add: min_def)
  qed
qed

text \<open>
  \<open>bind\<close> on the indices of the arguments, for a set of \<open>k\<close> slots: the first
  \<open>min n k\<close> of the \<open>n\<close> arguments are bound, and the call returns when \<open>n \<le> k\<close>.
\<close>

lemma bind_arguments:
  "bind s (index_sequence_for args) args w =
     (if length args \<le> set_slots s
      then Inr (s\<lparr>bindings := bindings s @ map (\<lambda>i. (i, args ! i)) [0..<length args]\<rparr>,
                w\<lparr>trace := trace w @
                     map (\<lambda>i. Bind (set_handle s) i (args ! i)) [0..<length args]\<rparr>)
      else Inl (Binding_Error,
                w\<lparr>trace := trace w @
                     map (\<lambda>i. Bind (set_handle s) i (args ! i)) [0..<set_slots s]\<rparr>))"
proof -
  have all: "(\<forall>i\<in>set (map fst (zip [0..<length args] args)). i < set_slots s) \<longleftrightarrow>
      length args \<le> set_slots s"
    by (auto simp: zip_upt_nth o_def)
  have tw: "takeWhile (\<lambda>(i, a). i < set_slots s) (zip [0..<length args] args) =
      map (\<lambda>i. (i, args ! i)) [0..<min (length args) (set_slots s)]"
    by (simp add: zip_upt_nth takeWhile_map o_def takeWhile_upt)
  show ?thesis
    unfolding index_sequence_for_def bind_closed all tw
    by (simp add: zip_upt_nth o_def min_def)
qed

lemma bind_set_arguments:
  "bindings s = map (\<lambda>i. (i, args ! i)) [0..<length args] \<Longrightarrow>
   bind_set cb s w =
     (if set_slots s \<le> length args
      then Inr (record_command cb (Bind_Descriptor_Set s) w)
      else Inl (Binding_Error, w))"
  by (auto simp: bind_set_def list_all_iff image_image)

section \<open>Properties of dispatch\<close>

lemma api_context_props:
  assumes "api_context w = (p, w0)"
  shows "p = singleton w" and "singleton w0 = singleton w" and "adapter w0 = adapter w"
    and "trace w0 = trace w" and "\<exists>c. heap w0 (singleton w) = Some c"
    and "a \<noteq> singleton w \<Longrightarrow> heap w0 a = heap w a"
    and "heap w (singleton w) = Some c \<Longrightarrow> w0 = w"
    and "next_handle w \<le> next_handle w0"
  using assms
  by (auto simp: api_context_def Context_new_def Let_def split: option.splits)

lemma api_context_singleton: "\<exists>w0. api_context w = (singleton w, w0)"
  by (cases "api_context w") (auto dest: api_context_props(1))

lemma api_context_fresh:
  assumes "api_context w = (p, w0)" and "heap w (singleton w) = None"
    and "heap w0 (singleton w) = Some c"
  shows "device' c \<noteq> 0" and "queue' c \<noteq> 0" and "shader_layout_cache (shader' c) = []"
  using assms by (auto simp: api_context_def Context_new_def Let_def)

lemma vkCmdPushConstants_sizeof:
  "vkCmdPushConstants cb pl st off (sizeof params) params w =
     record_command cb (Push_Constants pl st off (sizeof params) params) w"
  by (simp add: vkCmdPushConstants_def sizeof_def)

lemma retrieve_grown: "retrieve ev mk cache key w = (v, cache', w') \<Longrightarrow> grown cache cache'"
  by (rule grown_retrieve [OF grown_refl])

lemma grown_keeps: "grown cache cache' \<Longrightarrow> map_of cache k = Some v \<Longrightarrow> map_of cache' k = Some v"
  by (induction rule: grown.induct) (auto dest: retrieve_props(2))

lemma grown_trans: "grown b c \<Longrightarrow> grown a b \<Longrightarrow> grown a c"
  by (induction rule: grown.induct) (auto intro: grown.intros)

lemma dispatch_assert:
  assumes "api_context w = (singleton w, w0)" and "heap w0 (singleton w) = Some c"
    and "gpu debug c = Inl e"
  shows "dispatch debug this w cb sig desc g l params args = Inl (e, w0)"
  using assms by (simp add: dispatch_def)

text \<open>
  A call of \<open>dispatch\<close> on a singleton \<open>c\<close> that passes the assertions, in one piece: the
  objects it resolves, the singleton \<open>c'\<close> and the state \<open>W\<close> after the allocation of the
  descriptor set, and the result, which is a failure of the binding unless the number of
  the arguments is the number of the slots of the layout.
\<close>

lemma dispatch_run:
  assumes a: "api_context w = (singleton w, w0)" and c: "heap w0 (singleton w) = Some c"
    and g: "gpu debug c = Inr gp"
  obtains sl pl sm p c' W where
    "map_of (shader_layout_cache (shader' c')) sig = Some sl"
    "map_of (pipeline_layout_cache (pipeline' c')) (handle sl, sizeof params) = Some pl"
    "map_of (shader_cache (shader' c')) desc = Some sm"
    "map_of (pipeline_cache (pipeline' c')) (pl, sm, l) = Some p"
    "grown (shader_layout_cache (shader' c)) (shader_layout_cache (shader' c'))"
    "grown (pipeline_layout_cache (pipeline' c)) (pipeline_layout_cache (pipeline' c'))"
    "grown (shader_cache (shader' c)) (shader_cache (shader' c'))"
    "grown (pipeline_cache (pipeline' c)) (pipeline_cache (pipeline' c'))"
    "pool (descriptor' c') = pool (descriptor' c) @ [next_handle W]"
    "heap W = (heap w0)(singleton w \<mapsto> c')"
    "singleton W = singleton w"
    "adapter W = adapter w"
    "next_handle w0 < next_handle W"
    "trace W = trace w @
       [Retrieve_Shader_Layout sig sl,
        Retrieve_Pipeline_Layout (handle sl, sizeof params) pl,
        Record (buffer_handle cb)
          (Push_Constants pl VK_SHADER_STAGE_COMPUTE_BIT 0 (sizeof params) params),
        Retrieve_Shader desc sm,
        Retrieve_Pipeline (pl, sm, l) p,
        Record (buffer_handle cb) (Bind_Pipeline p),
        Allocate (handle sl) (next_handle W)]"
    "\<forall>sl0 pl0 sm0 p0.
       map_of (shader_layout_cache (shader' c)) sig = Some sl0 \<longrightarrow>
       map_of (pipeline_layout_cache (pipeline' c)) (handle sl0, sizeof params) = Some pl0 \<longrightarrow>
       map_of (shader_cache (shader' c)) desc = Some sm0 \<longrightarrow>
       map_of (pipeline_cache (pipeline' c)) (pl0, sm0, l) = Some p0 \<longrightarrow>
       pl = pl0 \<and> p = p0 \<and> shader' c' = shader' c \<and> pipeline' c' = pipeline' c \<and>
       next_handle W = Suc (next_handle w0)"
    "list_all (\<lambda>(key, object). slot_count object = length key)
       (shader_layout_cache (shader' c)) \<longrightarrow>
     slot_count sl = length sig \<and>
     list_all (\<lambda>(key, object). slot_count object = length key)
       (shader_layout_cache (shader' c'))"
    "dispatch debug this w cb sig desc g l params args =
       (if length args = slot_count sl
        then Inr (cb\<lparr>commands := commands cb @ dispatch_commands pl params p
                      \<lparr>set_handle = next_handle W, set_layout = handle sl,
                       set_slots = slot_count sl,
                       bindings = map (\<lambda>i. (i, args ! i)) [0..<length args]\<rparr> g\<rparr>,
                  W\<lparr>trace := trace W @
                       map (\<lambda>i. Bind (next_handle W) i (args ! i)) [0..<length args] @
                       [Record (buffer_handle cb) (Bind_Descriptor_Set
                          \<lparr>set_handle = next_handle W, set_layout = handle sl,
                           set_slots = slot_count sl,
                           bindings = map (\<lambda>i. (i, args ! i)) [0..<length args]\<rparr>),
                        Record (buffer_handle cb) (Dispatch g)]\<rparr>)
        else Inl (Binding_Error,
                  W\<lparr>trace := trace W @
                       map (\<lambda>i. Bind (next_handle W) i (args ! i))
                         [0..<min (length args) (slot_count sl)]\<rparr>))"
proof -
  let ?mk = "\<lambda>key h. \<lparr>handle = h, slot_count = length key\<rparr>"
  obtain sl c1 w1 where r1: "retrieve Retrieve_Shader_Layout ?mk
       (shader_layout_cache (shader' c)) sig w0 = (sl, c1, w1)"
    by (rule prod_cases3)
  obtain pl c2 w2 where r2: "retrieve Retrieve_Pipeline_Layout (\<lambda>key h. h)
       (pipeline_layout_cache (pipeline' c)) (handle sl, sizeof params) w1 = (pl, c2, w2)"
    by (rule prod_cases3)
  obtain cb1 w3 where pc: "vkCmdPushConstants cb pl VK_SHADER_STAGE_COMPUTE_BIT 0
       (sizeof params) params w2 = (cb1, w3)"
    by (rule prod.exhaust)
  obtain sm c3 w4 where r3: "retrieve Retrieve_Shader (\<lambda>key h. h) (shader_cache (shader' c))
       desc w3 = (sm, c3, w4)"
    by (rule prod_cases3)
  obtain p c4 w5 where r4: "retrieve Retrieve_Pipeline (\<lambda>key h. h)
       (pipeline_cache (pipeline' c)) (pl, sm, l) w4 = (p, c4, w5)"
    by (rule prod_cases3)
  obtain cb2 w6 where bp: "bind_pipeline cb1 p w5 = (cb2, w6)"
    by (rule prod.exhaust)
  obtain ds0 d1 w7 where al: "allocate (descriptor' c) sl w6 = (ds0, d1, w7)"
    by (rule prod_cases3)
  define c' where "c' = c\<lparr>shader' := (shader' c)\<lparr>shader_layout_cache := c1, shader_cache := c3\<rparr>,
          pipeline' := (pipeline' c)\<lparr>pipeline_layout_cache := c2, pipeline_cache := c4\<rparr>,
          descriptor' := d1\<rparr>"
  define W where "W = w7\<lparr>heap := (heap w7)(singleton w \<mapsto> c')\<rparr>"
  note A = api_context_props [OF a]
  note R1 = retrieve_props [OF r1] and R2 = retrieve_props [OF r2]
    and R3 = retrieve_props [OF r3] and R4 = retrieve_props [OF r4]
  note PC = record_command_props [OF pc [unfolded vkCmdPushConstants_sizeof]]
    and BP = record_command_props [OF bp [unfolded bind_pipeline_def]]
  note AL = allocate_props [OF al]
  have heap7: "heap w7 = heap w0"
    by (simp add: AL(3) BP(3) R4(3) R3(3) PC(3) R2(3) R1(3))
  have nh: "next_handle W = Suc (next_handle w6)"
    by (simp add: W_def AL(7))
  have mono: "next_handle w0 \<le> next_handle w6"
    using R1(7) R2(7) R3(7) R4(7) by (simp add: BP(7) PC(7))
  have ds0: "ds0 = \<lparr>set_handle = next_handle W, set_layout = handle sl,
      set_slots = slot_count sl, bindings = []\<rparr>"
    by (simp add: AL(1) nh)
  have bh: "buffer_handle cb1 = buffer_handle cb" "buffer_handle cb2 = buffer_handle cb"
    by (simp_all add: PC(2) BP(2))
  have cm2: "commands cb2 = commands cb @
      [Push_Constants pl VK_SHADER_STAGE_COMPUTE_BIT 0 (sizeof params) params, Bind_Pipeline p]"
    by (simp add: PC(1) BP(1))
  have tr: "trace W = trace w @
       [Retrieve_Shader_Layout sig sl,
        Retrieve_Pipeline_Layout (handle sl, sizeof params) pl,
        Record (buffer_handle cb)
          (Push_Constants pl VK_SHADER_STAGE_COMPUTE_BIT 0 (sizeof params) params),
        Retrieve_Shader desc sm,
        Retrieve_Pipeline (pl, sm, l) p,
        Record (buffer_handle cb) (Bind_Pipeline p),
        Allocate (handle sl) (next_handle W)]"
    by (simp add: W_def AL(6) BP(6) R4(6) R3(6) PC(6) R2(6) R1(6) A(4) bh nh [unfolded W_def, simplified])
  have res: "dispatch debug this w cb sig desc g l params args =
      (case bind ds0 (index_sequence_for args) args W of
         Inl failure \<Rightarrow> Inl failure
       | Inr (ds, w8) \<Rightarrow>
           (case bind_set cb2 ds w8 of
              Inl failure \<Rightarrow> Inl failure
            | Inr (cb3, w9) \<Rightarrow> Inr (buffer_dispatch cb3 g w9)))"
    unfolding dispatch_def
    by (simp add: a c g r1 r2 pc r3 r4 bp al Let_def W_def c'_def split: sum.splits prod.splits)
  show thesis
  proof (rule that [of c' sl pl sm p W])
    show "map_of (shader_layout_cache (shader' c')) sig = Some sl"
      by (simp add: c'_def R1(1))
    show "map_of (pipeline_layout_cache (pipeline' c')) (handle sl, sizeof params) = Some pl"
      by (simp add: c'_def R2(1))
    show "map_of (shader_cache (shader' c')) desc = Some sm"
      by (simp add: c'_def R3(1))
    show "map_of (pipeline_cache (pipeline' c')) (pl, sm, l) = Some p"
      by (simp add: c'_def R4(1))
    show "grown (shader_layout_cache (shader' c)) (shader_layout_cache (shader' c'))"
      using retrieve_grown [OF r1] by (simp add: c'_def)
    show "grown (pipeline_layout_cache (pipeline' c)) (pipeline_layout_cache (pipeline' c'))"
      using retrieve_grown [OF r2] by (simp add: c'_def)
    show "grown (shader_cache (shader' c)) (shader_cache (shader' c'))"
      using retrieve_grown [OF r3] by (simp add: c'_def)
    show "grown (pipeline_cache (pipeline' c)) (pipeline_cache (pipeline' c'))"
      using retrieve_grown [OF r4] by (simp add: c'_def)
    show "pool (descriptor' c') = pool (descriptor' c) @ [next_handle W]"
      by (simp add: c'_def AL(2) nh)
    show "heap W = (heap w0)(singleton w \<mapsto> c')"
      by (simp add: W_def heap7)
    show "singleton W = singleton w"
      by (simp add: W_def AL(4) BP(4) R4(4) R3(4) PC(4) R2(4) R1(4) A(2))
    show "adapter W = adapter w"
      by (simp add: W_def AL(5) BP(5) R4(5) R3(5) PC(5) R2(5) R1(5) A(3))
    show "next_handle w0 < next_handle W"
      using nh mono by simp
    show "trace W = trace w @
       [Retrieve_Shader_Layout sig sl,
        Retrieve_Pipeline_Layout (handle sl, sizeof params) pl,
        Record (buffer_handle cb)
          (Push_Constants pl VK_SHADER_STAGE_COMPUTE_BIT 0 (sizeof params) params),
        Retrieve_Shader desc sm,
        Retrieve_Pipeline (pl, sm, l) p,
        Record (buffer_handle cb) (Bind_Pipeline p),
        Allocate (handle sl) (next_handle W)]"
      by (rule tr)
  next
    show "\<forall>sl0 pl0 sm0 p0.
       map_of (shader_layout_cache (shader' c)) sig = Some sl0 \<longrightarrow>
       map_of (pipeline_layout_cache (pipeline' c)) (handle sl0, sizeof params) = Some pl0 \<longrightarrow>
       map_of (shader_cache (shader' c)) desc = Some sm0 \<longrightarrow>
       map_of (pipeline_cache (pipeline' c)) (pl0, sm0, l) = Some p0 \<longrightarrow>
       pl = pl0 \<and> p = p0 \<and> shader' c' = shader' c \<and> pipeline' c' = pipeline' c \<and>
       next_handle W = Suc (next_handle w0)"
    proof (intro allI impI)
    fix sl0 pl0 sm0 p0
    assume h1: "map_of (shader_layout_cache (shader' c)) sig = Some sl0"
      and h2: "map_of (pipeline_layout_cache (pipeline' c)) (handle sl0, sizeof params) = Some pl0"
      and h3: "map_of (shader_cache (shader' c)) desc = Some sm0"
      and h4: "map_of (pipeline_cache (pipeline' c)) (pl0, sm0, l) = Some p0"
    from R1(8) [OF h1]
    have s1: "sl = sl0" "c1 = shader_layout_cache (shader' c)" "next_handle w1 = next_handle w0"
      by simp_all
    from R2(8) [of pl0] h2
    have s2: "pl = pl0" "c2 = pipeline_layout_cache (pipeline' c)" "next_handle w2 = next_handle w0"
      by (simp_all add: s1)
    from R3(8) [OF h3]
    have s3: "sm = sm0" "c3 = shader_cache (shader' c)" "next_handle w4 = next_handle w0"
      by (simp_all add: PC(7) s2)
    from R4(8) [of p0] h4
    have s4: "p = p0" "c4 = pipeline_cache (pipeline' c)" "next_handle w5 = next_handle w0"
      by (simp_all add: s2 s3)
    show "pl = pl0 \<and> p = p0 \<and> shader' c' = shader' c \<and> pipeline' c' = pipeline' c \<and>
       next_handle W = Suc (next_handle w0)"
      by (simp add: c'_def s1 s2 s3 s4 nh BP(7))
    qed
  next
    show "list_all (\<lambda>(key, object). slot_count object = length key)
       (shader_layout_cache (shader' c)) \<longrightarrow>
     slot_count sl = length sig \<and>
     list_all (\<lambda>(key, object). slot_count object = length key)
       (shader_layout_cache (shader' c'))"
    proof
      assume "list_all (\<lambda>(key, object). slot_count object = length key)
        (shader_layout_cache (shader' c))"
      from retrieve_list_all [OF r1 this]
      show "slot_count sl = length sig \<and>
        list_all (\<lambda>(key, object). slot_count object = length key)
          (shader_layout_cache (shader' c'))"
        by (simp add: c'_def)
    qed
  next
    show "dispatch debug this w cb sig desc g l params args =
       (if length args = slot_count sl
        then Inr (cb\<lparr>commands := commands cb @ dispatch_commands pl params p
                      \<lparr>set_handle = next_handle W, set_layout = handle sl,
                       set_slots = slot_count sl,
                       bindings = map (\<lambda>i. (i, args ! i)) [0..<length args]\<rparr> g\<rparr>,
                  W\<lparr>trace := trace W @
                       map (\<lambda>i. Bind (next_handle W) i (args ! i)) [0..<length args] @
                       [Record (buffer_handle cb) (Bind_Descriptor_Set
                          \<lparr>set_handle = next_handle W, set_layout = handle sl,
                           set_slots = slot_count sl,
                           bindings = map (\<lambda>i. (i, args ! i)) [0..<length args]\<rparr>),
                        Record (buffer_handle cb) (Dispatch g)]\<rparr>)
        else Inl (Binding_Error,
                  W\<lparr>trace := trace W @
                       map (\<lambda>i. Bind (next_handle W) i (args ! i))
                         [0..<min (length args) (slot_count sl)]\<rparr>))"
    proof (cases "length args \<le> slot_count sl")
      case False
      then show ?thesis
        by (simp add: res ds0 bind_arguments min_def)
    next
      case True
      let ?ds = "\<lparr>set_handle = next_handle W, set_layout = handle sl,
                       set_slots = slot_count sl,
                       bindings = map (\<lambda>i. (i, args ! i)) [0..<length args]\<rparr>"
      have b: "bind ds0 (index_sequence_for args) args W =
          Inr (?ds, W\<lparr>trace := trace W @
                       map (\<lambda>i. Bind (next_handle W) i (args ! i)) [0..<length args]\<rparr>)"
        using True by (simp add: ds0 bind_arguments)
      have bs: "bind_set cb2 ?ds w8 =
          (if slot_count sl \<le> length args
           then Inr (record_command cb2 (Bind_Descriptor_Set ?ds) w8)
           else Inl (Binding_Error, w8))" for w8
        by (subst bind_set_arguments [of _ args]) simp_all
      show ?thesis
        using True
        by (simp add: res b bs buffer_dispatch_def record_command_def bh cm2
            dispatch_commands_def min_def)
    qed
  qed
qed

lemma dispatch_start:
  obtains w0 c where "api_context w = (singleton w, w0)" and "heap w0 (singleton w) = Some c"
proof -
  obtain w0 where a: "api_context w = (singleton w, w0)"
    using api_context_singleton by blast
  from api_context_props(5) [OF a] obtain c where "heap w0 (singleton w) = Some c" by blast
  with a show thesis by (rule that)
qed

lemma gpu_Inr:
  "gpu debug c = Inr gp \<longleftrightarrow>
     (debug \<longrightarrow> device' c \<noteq> 0 \<and> queue' c \<noteq> 0) \<and>
     gp = \<lparr>gpu_adapter = adapter' c, gpu_device = device' c, gpu_queue = queue' c\<rparr>"
  by (auto simp: gpu_def device_def queue_def TORCH_INTERNAL_ASSERT_DEBUG_ONLY_def
      split: sum.splits if_splits)

lemma gpu_Inl:
  "gpu debug c = Inl e \<longleftrightarrow> debug \<and> (device' c = 0 \<or> queue' c = 0) \<and> e = Internal_Assert"
  by (auto simp: gpu_def device_def queue_def TORCH_INTERNAL_ASSERT_DEBUG_ONLY_def
      split: sum.splits if_splits)

lemma gpu_cases:
  obtains (Inl) "gpu debug c = Inl Internal_Assert" "debug" "device' c = 0 \<or> queue' c = 0"
  | (Inr) gp where "gpu debug c = Inr gp" "debug \<longrightarrow> device' c \<noteq> 0 \<and> queue' c \<noteq> 0"
  by (cases "gpu debug c") (auto simp: gpu_Inl gpu_Inr)

lemma dispatch_Inr_effects:
  assumes d: "dispatch debug this w cb sig desc g l params args = Inr (cb', w')"
  obtains w0 c c' gp sl pl sm p ds where
    "api_context w = (singleton w, w0)"
    "heap w0 (singleton w) = Some c"
    "gpu debug c = Inr gp"
    "heap w' = (heap w0)(singleton w \<mapsto> c')"
    "singleton w' = singleton w"
    "adapter w' = adapter w"
    "map_of (shader_layout_cache (shader' c')) sig = Some sl"
    "map_of (pipeline_layout_cache (pipeline' c')) (handle sl, sizeof params) = Some pl"
    "map_of (shader_cache (shader' c')) desc = Some sm"
    "map_of (pipeline_cache (pipeline' c')) (pl, sm, l) = Some p"
    "pool (descriptor' c') = pool (descriptor' c) @ [set_handle ds]"
    "ds = \<lparr>set_handle = next_handle w', set_layout = handle sl, set_slots = slot_count sl,
            bindings = zip [0..<length args] args\<rparr>"
    "next_handle w0 < next_handle w'"
    "commands cb' = commands cb @ dispatch_commands pl params p ds g"
    "buffer_handle cb' = buffer_handle cb"
    "trace w' = trace w @
       [Retrieve_Shader_Layout sig sl,
        Retrieve_Pipeline_Layout (handle sl, sizeof params) pl,
        Record (buffer_handle cb)
          (Push_Constants pl VK_SHADER_STAGE_COMPUTE_BIT 0 (sizeof params) params),
        Retrieve_Shader desc sm,
        Retrieve_Pipeline (pl, sm, l) p,
        Record (buffer_handle cb) (Bind_Pipeline p),
        Allocate (handle sl) (set_handle ds)] @
       map (\<lambda>(i, a). Bind (set_handle ds) i a) (zip [0..<length args] args) @
       [Record (buffer_handle cb) (Bind_Descriptor_Set ds),
        Record (buffer_handle cb) (Dispatch g)]"
    "length args = slot_count sl"
    "list_all (\<lambda>(key, object). slot_count object = length key)
       (shader_layout_cache (shader' c)) \<longrightarrow>
     slot_count sl = length sig \<and>
     list_all (\<lambda>(key, object). slot_count object = length key)
       (shader_layout_cache (shader' c'))"
    "grown (shader_layout_cache (shader' c)) (shader_layout_cache (shader' c'))"
    "grown (pipeline_layout_cache (pipeline' c)) (pipeline_layout_cache (pipeline' c'))"
    "grown (shader_cache (shader' c)) (shader_cache (shader' c'))"
    "grown (pipeline_cache (pipeline' c)) (pipeline_cache (pipeline' c'))"
proof -
  obtain w0 c where a: "api_context w = (singleton w, w0)" and c: "heap w0 (singleton w) = Some c"
    by (rule dispatch_start)
  from d dispatch_assert [OF a c] obtain gp where gp: "gpu debug c = Inr gp"
    by (cases "gpu debug c") auto
  from a c gp obtain sl :: Layout_Object and pl sm p c' and W :: world where
    e: "map_of (shader_layout_cache (shader' c')) sig = Some sl"
      "map_of (pipeline_layout_cache (pipeline' c')) (handle sl, sizeof params) = Some pl"
      "map_of (shader_cache (shader' c')) desc = Some sm"
      "map_of (pipeline_cache (pipeline' c')) (pl, sm, l) = Some p"
    and gr: "grown (shader_layout_cache (shader' c)) (shader_layout_cache (shader' c'))"
      "grown (pipeline_layout_cache (pipeline' c)) (pipeline_layout_cache (pipeline' c'))"
      "grown (shader_cache (shader' c)) (shader_cache (shader' c'))"
      "grown (pipeline_cache (pipeline' c)) (pipeline_cache (pipeline' c'))"
    and po: "pool (descriptor' c') = pool (descriptor' c) @ [next_handle W]"
    and hp: "heap W = (heap w0)(singleton w \<mapsto> c')"
    and si: "singleton W = singleton w"
    and ad: "adapter W = adapter w"
    and nh: "next_handle w0 < next_handle W"
    and tr: "trace W = trace w @
       [Retrieve_Shader_Layout sig sl,
        Retrieve_Pipeline_Layout (handle sl, sizeof params) pl,
        Record (buffer_handle cb)
          (Push_Constants pl VK_SHADER_STAGE_COMPUTE_BIT 0 (sizeof params) params),
        Retrieve_Shader desc sm,
        Retrieve_Pipeline (pl, sm, l) p,
        Record (buffer_handle cb) (Bind_Pipeline p),
        Allocate (handle sl) (next_handle W)]"
    and co: "list_all (\<lambda>(key, object). slot_count object = length key)
       (shader_layout_cache (shader' c)) \<longrightarrow>
     slot_count sl = length sig \<and>
     list_all (\<lambda>(key, object). slot_count object = length key)
       (shader_layout_cache (shader' c'))"
    and res: "dispatch debug this w cb sig desc g l params args =
       (if length args = slot_count sl
        then Inr (cb\<lparr>commands := commands cb @ dispatch_commands pl params p
                      \<lparr>set_handle = next_handle W, set_layout = handle sl,
                       set_slots = slot_count sl,
                       bindings = map (\<lambda>i. (i, args ! i)) [0..<length args]\<rparr> g\<rparr>,
                  W\<lparr>trace := trace W @
                       map (\<lambda>i. Bind (next_handle W) i (args ! i)) [0..<length args] @
                       [Record (buffer_handle cb) (Bind_Descriptor_Set
                          \<lparr>set_handle = next_handle W, set_layout = handle sl,
                           set_slots = slot_count sl,
                           bindings = map (\<lambda>i. (i, args ! i)) [0..<length args]\<rparr>),
                        Record (buffer_handle cb) (Dispatch g)]\<rparr>)
        else Inl (Binding_Error,
                  W\<lparr>trace := trace W @
                       map (\<lambda>i. Bind (next_handle W) i (args ! i))
                         [0..<min (length args) (slot_count sl)]\<rparr>))"
    by (rule dispatch_run [of w w0 c debug gp sig params desc l cb this g args])
      (rule that, assumption+)
  let ?ds = "\<lparr>set_handle = next_handle W, set_layout = handle sl, set_slots = slot_count sl,
              bindings = map (\<lambda>i. (i, args ! i)) [0..<length args]\<rparr>"
  from d res have n: "length args = slot_count sl"
    by (simp split: if_splits)
  from d res n have cb': "cb' = cb\<lparr>commands := commands cb @ dispatch_commands pl params p ?ds g\<rparr>"
    and w': "w' = W\<lparr>trace := trace W @
                       map (\<lambda>i. Bind (next_handle W) i (args ! i)) [0..<length args] @
                       [Record (buffer_handle cb) (Bind_Descriptor_Set ?ds),
                        Record (buffer_handle cb) (Dispatch g)]\<rparr>"
    by simp_all
  show thesis
  proof (rule that [of w0 c gp c' sl pl sm p
        "\<lparr>set_handle = next_handle w', set_layout = handle sl, set_slots = slot_count sl,
            bindings = zip [0..<length args] args\<rparr>"])
    show "list_all (\<lambda>(key, object). slot_count object = length key)
       (shader_layout_cache (shader' c)) \<longrightarrow>
     slot_count sl = length sig \<and>
     list_all (\<lambda>(key, object). slot_count object = length key)
       (shader_layout_cache (shader' c'))"
      by (rule co)
  qed (simp_all add: a c gp e gr po hp si ad nh tr n [symmetric] cb' w' zip_upt_nth bind_events o_def)
qed

lemma dispatch_Inl_effects:
  assumes d: "dispatch debug this w cb sig desc g l params args = Inl (e, w')"
  obtains (assert) c where
    "api_context w = (singleton w, w')"
    "heap w' (singleton w) = Some c"
    "debug" "device' c = 0 \<or> queue' c = 0" "e = Internal_Assert"
  | (binding) w0 c c' sl pl sm p h where
    "api_context w = (singleton w, w0)"
    "heap w0 (singleton w) = Some c"
    "debug \<longrightarrow> device' c \<noteq> 0 \<and> queue' c \<noteq> 0"
    "e = Binding_Error"
    "length args \<noteq> slot_count sl"
    "heap w' = (heap w0)(singleton w \<mapsto> c')"
    "singleton w' = singleton w"
    "adapter w' = adapter w"
    "map_of (shader_layout_cache (shader' c')) sig = Some sl"
    "trace w' = trace w @
       [Retrieve_Shader_Layout sig sl,
        Retrieve_Pipeline_Layout (handle sl, sizeof params) pl,
        Record (buffer_handle cb)
          (Push_Constants pl VK_SHADER_STAGE_COMPUTE_BIT 0 (sizeof params) params),
        Retrieve_Shader desc sm,
        Retrieve_Pipeline (pl, sm, l) p,
        Record (buffer_handle cb) (Bind_Pipeline p),
        Allocate (handle sl) h] @
       map (\<lambda>i. Bind h i (args ! i)) [0..<min (length args) (slot_count sl)]"
    "list_all (\<lambda>(key, object). slot_count object = length key)
       (shader_layout_cache (shader' c)) \<longrightarrow>
     slot_count sl = length sig \<and>
     list_all (\<lambda>(key, object). slot_count object = length key)
       (shader_layout_cache (shader' c'))"
    "grown (shader_layout_cache (shader' c)) (shader_layout_cache (shader' c'))"
    "grown (pipeline_layout_cache (pipeline' c)) (pipeline_layout_cache (pipeline' c'))"
    "grown (shader_cache (shader' c)) (shader_cache (shader' c'))"
    "grown (pipeline_cache (pipeline' c)) (pipeline_cache (pipeline' c'))"
proof -
  obtain w0 c where a: "api_context w = (singleton w, w0)" and c: "heap w0 (singleton w) = Some c"
    by (rule dispatch_start)
  show thesis
  proof (cases debug c rule: gpu_cases)
    case Inl
    from dispatch_assert [OF a c Inl(1)] d have "e = Internal_Assert" "w' = w0"
      by simp_all
    with a c Inl show thesis by (auto intro: assert)
  next
    case (Inr gp)
    from a c Inr(1) obtain sl :: Layout_Object and pl sm p c' and W :: world where
      e: "map_of (shader_layout_cache (shader' c')) sig = Some sl"
      and gr: "grown (shader_layout_cache (shader' c)) (shader_layout_cache (shader' c'))"
        "grown (pipeline_layout_cache (pipeline' c)) (pipeline_layout_cache (pipeline' c'))"
        "grown (shader_cache (shader' c)) (shader_cache (shader' c'))"
        "grown (pipeline_cache (pipeline' c)) (pipeline_cache (pipeline' c'))"
      and hp: "heap W = (heap w0)(singleton w \<mapsto> c')"
      and si: "singleton W = singleton w"
      and ad: "adapter W = adapter w"
      and tr: "trace W = trace w @
       [Retrieve_Shader_Layout sig sl,
        Retrieve_Pipeline_Layout (handle sl, sizeof params) pl,
        Record (buffer_handle cb)
          (Push_Constants pl VK_SHADER_STAGE_COMPUTE_BIT 0 (sizeof params) params),
        Retrieve_Shader desc sm,
        Retrieve_Pipeline (pl, sm, l) p,
        Record (buffer_handle cb) (Bind_Pipeline p),
        Allocate (handle sl) (next_handle W)]"
      and co: "list_all (\<lambda>(key, object). slot_count object = length key)
         (shader_layout_cache (shader' c)) \<longrightarrow>
       slot_count sl = length sig \<and>
       list_all (\<lambda>(key, object). slot_count object = length key)
         (shader_layout_cache (shader' c'))"
      and res: "dispatch debug this w cb sig desc g l params args =
       (if length args = slot_count sl
        then Inr (cb\<lparr>commands := commands cb @ dispatch_commands pl params p
                      \<lparr>set_handle = next_handle W, set_layout = handle sl,
                       set_slots = slot_count sl,
                       bindings = map (\<lambda>i. (i, args ! i)) [0..<length args]\<rparr> g\<rparr>,
                  W\<lparr>trace := trace W @
                       map (\<lambda>i. Bind (next_handle W) i (args ! i)) [0..<length args] @
                       [Record (buffer_handle cb) (Bind_Descriptor_Set
                          \<lparr>set_handle = next_handle W, set_layout = handle sl,
                           set_slots = slot_count sl,
                           bindings = map (\<lambda>i. (i, args ! i)) [0..<length args]\<rparr>),
                        Record (buffer_handle cb) (Dispatch g)]\<rparr>)
        else Inl (Binding_Error,
                  W\<lparr>trace := trace W @
                       map (\<lambda>i. Bind (next_handle W) i (args ! i))
                         [0..<min (length args) (slot_count sl)]\<rparr>))"
      by (rule dispatch_run [of w w0 c debug gp sig params desc l cb this g args])
      (rule that, assumption+)
    from d res have n: "length args \<noteq> slot_count sl"
      by (simp split: if_splits)
    from d res n have er: "e = Binding_Error"
      and w': "w' = W\<lparr>trace := trace W @
                       map (\<lambda>i. Bind (next_handle W) i (args ! i))
                         [0..<min (length args) (slot_count sl)]\<rparr>"
      by simp_all
    show thesis
    proof (rule binding [of w0 c sl c' pl sm p "next_handle W"])
      show "list_all (\<lambda>(key, object). slot_count object = length key)
         (shader_layout_cache (shader' c)) \<longrightarrow>
       slot_count sl = length sig \<and>
       list_all (\<lambda>(key, object). slot_count object = length key)
         (shader_layout_cache (shader' c'))"
        by (rule co)
    qed (simp_all add: a c Inr(2) er n e gr hp si ad tr w')
  qed
qed

lemma dispatch_failure_cases:
  assumes "dispatch debug this w cb sig desc g l params args = Inl (e, w')"
  shows "e = Internal_Assert \<or> e = Binding_Error"
  using assms by (rule dispatch_Inl_effects) simp_all

lemma dispatch_Inr_singleton:
  assumes "dispatch debug this w cb sig desc g l params args = Inr (cb', w')"
  shows "singleton w' = singleton w"
  using assms by (rule dispatch_Inr_effects)

lemma dispatch_Inr_caches:
  assumes d: "dispatch debug this w cb sig desc g l params args = Inr (cb', w')"
    and c: "heap w (singleton w) = Some c"
  obtains c' where
    "heap w' (singleton w) = Some c'"
    "grown (shader_layout_cache (shader' c)) (shader_layout_cache (shader' c'))"
    "grown (pipeline_layout_cache (pipeline' c)) (pipeline_layout_cache (pipeline' c'))"
    "grown (shader_cache (shader' c)) (shader_cache (shader' c'))"
    "grown (pipeline_cache (pipeline' c)) (pipeline_cache (pipeline' c'))"
  using d
proof (rule dispatch_Inr_effects)
  fix w0 c0 c'
  assume a: "api_context w = (singleton w, w0)"
    and c0: "heap w0 (singleton w) = Some c0"
    and h: "heap w' = (heap w0)(singleton w \<mapsto> c')"
    and gr: "grown (shader_layout_cache (shader' c0)) (shader_layout_cache (shader' c'))"
      "grown (pipeline_layout_cache (pipeline' c0)) (pipeline_layout_cache (pipeline' c'))"
      "grown (shader_cache (shader' c0)) (shader_cache (shader' c'))"
      "grown (pipeline_cache (pipeline' c0)) (pipeline_cache (pipeline' c'))"
  from api_context_props(7) [OF a c] c c0 have "c0 = c" by simp
  with h gr show thesis by (auto intro: that)
qed

lemma dispatch_Inl_caches:
  assumes d: "dispatch debug this w cb sig desc g l params args = Inl (e, w')"
    and c: "heap w (singleton w) = Some c"
  obtains c' where
    "singleton w' = singleton w"
    "heap w' (singleton w) = Some c'"
    "grown (shader_layout_cache (shader' c)) (shader_layout_cache (shader' c'))"
    "grown (pipeline_layout_cache (pipeline' c)) (pipeline_layout_cache (pipeline' c'))"
    "grown (shader_cache (shader' c)) (shader_cache (shader' c'))"
    "grown (pipeline_cache (pipeline' c)) (pipeline_cache (pipeline' c'))"
  using d
proof (cases rule: dispatch_Inl_effects)
  case (assert c0)
  from api_context_props(7) [OF assert(1) c] have "w' = w" .
  with c show thesis by (auto intro: that grown_refl)
next
  case (binding w0 c0 c' sl pl sm p h)
  from api_context_props(7) [OF binding(1) c] c binding(2) have "c0 = c" by simp
  with binding(6,7,12-15) show thesis by (auto intro: that)
qed

lemma dispatch_all_hits:
  assumes d: "dispatch debug this w cb sig desc g l params args = Inr (cb', w')"
    and c: "heap w (singleton w) = Some c"
    and h1: "map_of (shader_layout_cache (shader' c)) sig = Some sl"
    and h2: "map_of (pipeline_layout_cache (pipeline' c)) (handle sl, sizeof params) = Some pl"
    and h3: "map_of (shader_cache (shader' c)) desc = Some sm"
    and h4: "map_of (pipeline_cache (pipeline' c)) (pl, sm, l) = Some p"
  shows "\<exists>ds. commands cb' = commands cb @ dispatch_commands pl params p ds g"
    and "\<exists>c'. heap w' (singleton w) = Some c' \<and> shader' c' = shader' c \<and> pipeline' c' = pipeline' c"
    and "next_handle w' = Suc (next_handle w)"
proof -
  from c have a: "api_context w = (singleton w, w)" by (simp add: api_context_def)
  from d dispatch_assert [OF a c] obtain gp where gp: "gpu debug c = Inr gp"
    by (cases "gpu debug c") auto
  from a c gp obtain sl' :: Layout_Object and pl' sm' p' c' and W :: world where
    hp: "heap W = (heap w)(singleton w \<mapsto> c')"
    and hit: "\<forall>sl0 pl0 sm0 p0.
       map_of (shader_layout_cache (shader' c)) sig = Some sl0 \<longrightarrow>
       map_of (pipeline_layout_cache (pipeline' c)) (handle sl0, sizeof params) = Some pl0 \<longrightarrow>
       map_of (shader_cache (shader' c)) desc = Some sm0 \<longrightarrow>
       map_of (pipeline_cache (pipeline' c)) (pl0, sm0, l) = Some p0 \<longrightarrow>
       pl' = pl0 \<and> p' = p0 \<and> shader' c' = shader' c \<and> pipeline' c' = pipeline' c \<and>
       next_handle W = Suc (next_handle w)"
    and res: "dispatch debug this w cb sig desc g l params args =
       (if length args = slot_count sl'
        then Inr (cb\<lparr>commands := commands cb @ dispatch_commands pl' params p'
                      \<lparr>set_handle = next_handle W, set_layout = handle sl',
                       set_slots = slot_count sl',
                       bindings = map (\<lambda>i. (i, args ! i)) [0..<length args]\<rparr> g\<rparr>,
                  W\<lparr>trace := trace W @
                       map (\<lambda>i. Bind (next_handle W) i (args ! i)) [0..<length args] @
                       [Record (buffer_handle cb) (Bind_Descriptor_Set
                          \<lparr>set_handle = next_handle W, set_layout = handle sl',
                           set_slots = slot_count sl',
                           bindings = map (\<lambda>i. (i, args ! i)) [0..<length args]\<rparr>),
                        Record (buffer_handle cb) (Dispatch g)]\<rparr>)
        else Inl (Binding_Error,
                  W\<lparr>trace := trace W @
                       map (\<lambda>i. Bind (next_handle W) i (args ! i))
                         [0..<min (length args) (slot_count sl')]\<rparr>))"
    by (rule dispatch_run [of w w c debug gp sig params desc l cb this g args])
      (rule that, assumption+)
  from hit h1 h2 h3 h4 have s: "pl' = pl" "p' = p" "shader' c' = shader' c"
    "pipeline' c' = pipeline' c" "next_handle W = Suc (next_handle w)"
    by blast+
  from d res have n: "length args = slot_count sl'"
    by (simp split: if_splits)
  from d res n have cb': "cb' = cb\<lparr>commands := commands cb @ dispatch_commands pl' params p'
                      \<lparr>set_handle = next_handle W, set_layout = handle sl',
                       set_slots = slot_count sl',
                       bindings = map (\<lambda>i. (i, args ! i)) [0..<length args]\<rparr> g\<rparr>"
    and w': "w' = W\<lparr>trace := trace W @
                       map (\<lambda>i. Bind (next_handle W) i (args ! i)) [0..<length args] @
                       [Record (buffer_handle cb) (Bind_Descriptor_Set
                          \<lparr>set_handle = next_handle W, set_layout = handle sl',
                           set_slots = slot_count sl',
                           bindings = map (\<lambda>i. (i, args ! i)) [0..<length args]\<rparr>),
                        Record (buffer_handle cb) (Dispatch g)]\<rparr>"
    by simp_all
  show "\<exists>ds. commands cb' = commands cb @ dispatch_commands pl params p ds g"
    by (simp add: cb' s(1,2)) blast
  show "next_handle w' = Suc (next_handle w)"
    by (simp add: w' s(5))
  show "\<exists>c'. heap w' (singleton w) = Some c' \<and> shader' c' = shader' c \<and> pipeline' c' = pipeline' c"
    by (simp add: w' hp s(3,4))
qed

lemma later_grown:
  assumes "later debug w w'" and "heap w (singleton w) = Some c"
  shows "singleton w' = singleton w \<and>
    (\<exists>c'. heap w' (singleton w) = Some c' \<and>
       grown (shader_layout_cache (shader' c)) (shader_layout_cache (shader' c')) \<and>
       grown (pipeline_layout_cache (pipeline' c)) (pipeline_layout_cache (pipeline' c')) \<and>
       grown (shader_cache (shader' c)) (shader_cache (shader' c')) \<and>
       grown (pipeline_cache (pipeline' c)) (pipeline_cache (pipeline' c')))"
  using assms
proof (induction rule: later.induct)
  case (later_refl w)
  then show ?case by (auto intro: grown_refl)
next
  case (later_dispatch w w1 this cb sig desc g l params args cb' w2)
  from later_dispatch.IH [OF later_dispatch.prems] obtain c1 where
    s: "singleton w1 = singleton w" and c1: "heap w1 (singleton w) = Some c1"
    and g: "grown (shader_layout_cache (shader' c)) (shader_layout_cache (shader' c1))"
       "grown (pipeline_layout_cache (pipeline' c)) (pipeline_layout_cache (pipeline' c1))"
       "grown (shader_cache (shader' c)) (shader_cache (shader' c1))"
       "grown (pipeline_cache (pipeline' c)) (pipeline_cache (pipeline' c1))"
    by blast
  from c1 s have c1': "heap w1 (singleton w1) = Some c1" by simp
  from later_dispatch.hyps(2) c1' obtain c2 where
    c2: "heap w2 (singleton w1) = Some c2"
    and g2: "grown (shader_layout_cache (shader' c1)) (shader_layout_cache (shader' c2))"
       "grown (pipeline_layout_cache (pipeline' c1)) (pipeline_layout_cache (pipeline' c2))"
       "grown (shader_cache (shader' c1)) (shader_cache (shader' c2))"
       "grown (pipeline_cache (pipeline' c1)) (pipeline_cache (pipeline' c2))"
    by (rule dispatch_Inr_caches)
  from dispatch_Inr_singleton [OF later_dispatch.hyps(2)] s
  have "singleton w2 = singleton w" by simp
  with c2 s g g2 show ?case by (auto intro: grown_trans)
next
  case (later_failed w w1 this cb sig desc g l params args e w2)
  from later_failed.IH [OF later_failed.prems] obtain c1 where
    s: "singleton w1 = singleton w" and c1: "heap w1 (singleton w) = Some c1"
    and g: "grown (shader_layout_cache (shader' c)) (shader_layout_cache (shader' c1))"
       "grown (pipeline_layout_cache (pipeline' c)) (pipeline_layout_cache (pipeline' c1))"
       "grown (shader_cache (shader' c)) (shader_cache (shader' c1))"
       "grown (pipeline_cache (pipeline' c)) (pipeline_cache (pipeline' c1))"
    by blast
  from c1 s have c1': "heap w1 (singleton w1) = Some c1" by simp
  from later_failed.hyps(2) c1' obtain c2 where
    s2: "singleton w2 = singleton w1"
    and c2: "heap w2 (singleton w1) = Some c2"
    and g2: "grown (shader_layout_cache (shader' c1)) (shader_layout_cache (shader' c2))"
       "grown (pipeline_layout_cache (pipeline' c1)) (pipeline_layout_cache (pipeline' c2))"
       "grown (shader_cache (shader' c1)) (shader_cache (shader' c2))"
       "grown (pipeline_cache (pipeline' c1)) (pipeline_cache (pipeline' c2))"
    by (rule dispatch_Inl_caches)
  with c2 s g show ?case by (auto intro: grown_trans)
qed

lemma map_of_indexed:
  "i < length xs \<Longrightarrow> map_of (map (\<lambda>i. (i, xs ! i)) [0..<length xs]) i = Some (xs ! i)"
proof -
  assume "i < length xs"
  then have "i \<in> set [0..<length xs]" by simp
  then show ?thesis
    by (simp only: map_of_map_restrict restrict_map_def) simp
qed

text \<open>
  The singleton that a call of \<open>dispatch\<close> works on passes the assertions, and its layouts
  have the slots of their signatures, when this is so in the state of the call.
\<close>

lemma start_assertions:
  assumes "api_context w = (singleton w, w0)" and "heap w0 (singleton w) = Some c"
    and "assertions_pass debug w"
  shows "debug \<longrightarrow> device' c \<noteq> 0 \<and> queue' c \<noteq> 0"
proof (cases "heap w (singleton w)")
  case None
  with assms(1,2) show ?thesis
    by (auto dest: api_context_fresh)
next
  case (Some c0)
  with api_context_props(7) [OF assms(1) Some] assms(2,3) show ?thesis
    by (simp add: assertions_pass_def)
qed

lemma start_consistent:
  assumes "api_context w = (singleton w, w0)" and "heap w0 (singleton w) = Some c"
    and "layouts_consistent w"
  shows "list_all (\<lambda>(key, object). slot_count object = length key)
           (shader_layout_cache (shader' c))"
proof (cases "heap w (singleton w)")
  case None
  with assms(1,2) show ?thesis
    by (simp add: api_context_fresh(3))
next
  case (Some c0)
  with api_context_props(7) [OF assms(1) Some] assms(2,3) show ?thesis
    by (simp add: layouts_consistent_def)
qed

lemma dispatch_Inr_consistent:
  assumes d: "dispatch debug this w cb sig desc g l params args = Inr (cb', w')"
    and k: "layouts_consistent w"
  shows "length args = length sig" and "layouts_consistent w'"
proof -
  from d obtain w0 :: world and c c' and sl :: Layout_Object where
    a: "api_context w = (singleton w, w0)"
    and c: "heap w0 (singleton w) = Some c"
    and h: "heap w' = (heap w0)(singleton w \<mapsto> c')"
    and s: "singleton w' = singleton w"
    and n: "length args = slot_count sl"
    and co: "list_all (\<lambda>(key, object). slot_count object = length key)
       (shader_layout_cache (shader' c)) \<longrightarrow>
     slot_count sl = length sig \<and>
     list_all (\<lambda>(key, object). slot_count object = length key)
       (shader_layout_cache (shader' c'))"
    by (rule dispatch_Inr_effects)
  from co start_consistent [OF a c k] n show "length args = length sig" by simp
  from co start_consistent [OF a c k] h s show "layouts_consistent w'"
    by (simp add: layouts_consistent_def)
qed

lemma dispatch_Inl_consistent:
  assumes d: "dispatch debug this w cb sig desc g l params args = Inl (e, w')"
    and k: "layouts_consistent w"
  shows "layouts_consistent w'"
  using d
proof (cases rule: dispatch_Inl_effects)
  case (assert c)
  from start_consistent [OF assert(1,2) k] assert(2) api_context_props(2) [OF assert(1)]
  show ?thesis by (simp add: layouts_consistent_def)
next
  case (binding w0 c c' sl pl sm p h)
  from binding(11) start_consistent [OF binding(1,2) k] binding(6,7) show ?thesis
    by (simp add: layouts_consistent_def)
qed

text \<open>
  What a call of \<open>dispatch\<close> does on a singleton with consistent layouts that passes the
  assertions: it returns when the number of the arguments is that of the slots of the
  signature, and fails at the binding otherwise.
\<close>

lemma dispatch_outcome:
  assumes k: "layouts_consistent w" and ap: "assertions_pass debug w"
  shows "length args = length sig \<longrightarrow>
           (\<exists>cb' w'. dispatch debug this w cb sig desc g l params args = Inr (cb', w'))"
    and "length args \<noteq> length sig \<longrightarrow>
           (\<exists>w'. dispatch debug this w cb sig desc g l params args = Inl (Binding_Error, w'))"
proof -
  obtain w0 c where a: "api_context w = (singleton w, w0)" and c: "heap w0 (singleton w) = Some c"
    by (rule dispatch_start)
  from start_assertions [OF a c ap]
  obtain gp where gp: "gpu debug c = Inr gp"
    by (simp add: gpu_Inr)
  from a c gp obtain sl :: Layout_Object and pl sm p and c' :: Context and W :: world where
    co: "list_all (\<lambda>(key, object). slot_count object = length key)
         (shader_layout_cache (shader' c)) \<longrightarrow>
       slot_count sl = length sig \<and>
       list_all (\<lambda>(key, object). slot_count object = length key)
         (shader_layout_cache (shader' c'))"
    and res: "dispatch debug this w cb sig desc g l params args =
       (if length args = slot_count sl
        then Inr (cb\<lparr>commands := commands cb @ dispatch_commands pl params p
                      \<lparr>set_handle = next_handle W, set_layout = handle sl,
                       set_slots = slot_count sl,
                       bindings = map (\<lambda>i. (i, args ! i)) [0..<length args]\<rparr> g\<rparr>,
                  W\<lparr>trace := trace W @
                       map (\<lambda>i. Bind (next_handle W) i (args ! i)) [0..<length args] @
                       [Record (buffer_handle cb) (Bind_Descriptor_Set
                          \<lparr>set_handle = next_handle W, set_layout = handle sl,
                           set_slots = slot_count sl,
                           bindings = map (\<lambda>i. (i, args ! i)) [0..<length args]\<rparr>),
                        Record (buffer_handle cb) (Dispatch g)]\<rparr>)
        else Inl (Binding_Error,
                  W\<lparr>trace := trace W @
                       map (\<lambda>i. Bind (next_handle W) i (args ! i))
                         [0..<min (length args) (slot_count sl)]\<rparr>))"
    by (rule dispatch_run [of w w0 c debug gp sig params desc l cb this g args])
      (rule that, assumption+)
  from co start_consistent [OF a c k] have n: "slot_count sl = length sig" by simp
  show "length args = length sig \<longrightarrow>
           (\<exists>cb' w'. dispatch debug this w cb sig desc g l params args = Inr (cb', w'))"
    by (simp add: res n)
  show "length args \<noteq> length sig \<longrightarrow>
           (\<exists>w'. dispatch debug this w cb sig desc g l params args = Inl (Binding_Error, w'))"
    by (simp add: res n)
qed

lemma dispatch_fails_without_assertions:
  assumes "\<not> assertions_pass debug w"
  shows "dispatch debug this w cb sig desc g l params args = Inl (Internal_Assert, w)"
proof -
  from assms obtain c where c: "heap w (singleton w) = Some c"
    and z: "debug" "device' c = 0 \<or> queue' c = 0"
    by (auto simp: assertions_pass_def split: option.splits)
  from c have a: "api_context w = (singleton w, w)" by (simp add: api_context_def)
  from z have "gpu debug c = Inl Internal_Assert" by (simp add: gpu_Inl)
  with a c show ?thesis by (rule dispatch_assert)
qed

text \<open>
  The definitions that evaluate a call of \<open>dispatch\<close> on a given state.
\<close>

lemmas dispatch_eval = dispatch_def api_context_def Context_new_def gpu_def device_def queue_def
  TORCH_INTERNAL_ASSERT_DEBUG_ONLY_def retrieve_def vkCmdPushConstants_def record_command_def
  bind_pipeline_def bind_set_def buffer_dispatch_def allocate_def set_bind_def
  index_sequence_for_def sizeof_def Let_def VK_SHADER_STAGE_COMPUTE_BIT_def w_init_def
  upt_conv_Cons

section \<open>The caches\<close>

text \<open>
  C1.  A retrieval from a cache, any number of further retrievals from it, and then a
  retrieval with the key of the first one: the last one returns the object of the first
  one, leaves the cache as it was and has no native object created; and a retrieval
  from a cache that has no two entries with one key gives a cache that has none.  In
  particular, for two calls of \<open>dispatch\<close> that return, with any number of calls of
  \<open>dispatch\<close> between them, and with the same signature, kernel descriptor, local work
  group size and parameter block size: both push the constants against the same pipeline
  layout and bind the same pipeline, and the second one leaves the caches of the shader
  and pipeline subsystems of the singleton as they were, the only handle the driver gives
  out during it being that of the descriptor set.
\<close>

theorem identical_keys_resolve_to_identical_objects:
  "(retrieve ev create cache key w = (object, cache1, w1) \<and> grown cache1 cache2 \<and>
    retrieve ev' create' cache2 key w2 = (object', cache3, w3) \<longrightarrow>
      object' = object \<and> cache3 = cache2 \<and> next_handle w3 = next_handle w2) \<and>
   (retrieve ev create cache key w = (object, cache1, w1) \<and> distinct (map fst cache) \<longrightarrow>
      distinct (map fst cache1)) \<and>
   (dispatch debug this1 u cb1 sig desc g1 l params1 args1 = Inr (cb1', u1) \<and>
    later debug u1 u2 \<and>
    dispatch debug this2 u2 cb2 sig desc g2 l params2 args2 = Inr (cb2', u3) \<and>
    sizeof params2 = sizeof params1 \<longrightarrow>
      (\<exists>pl p ds1 ds2.
         commands cb1' = commands cb1 @
           [Push_Constants pl VK_SHADER_STAGE_COMPUTE_BIT 0 (sizeof params1) params1,
            Bind_Pipeline p, Bind_Descriptor_Set ds1, Dispatch g1] \<and>
         commands cb2' = commands cb2 @
           [Push_Constants pl VK_SHADER_STAGE_COMPUTE_BIT 0 (sizeof params2) params2,
            Bind_Pipeline p, Bind_Descriptor_Set ds2, Dispatch g2]) \<and>
      map_option shader' (heap u3 (singleton u3)) = map_option shader' (heap u2 (singleton u2)) \<and>
      map_option pipeline' (heap u3 (singleton u3)) =
        map_option pipeline' (heap u2 (singleton u2)) \<and>
      next_handle u3 = Suc (next_handle u2))"
proof (intro conjI impI; elim conjE)
  assume r1: "retrieve ev create cache key w = (object, cache1, w1)"
    and g: "grown cache1 cache2"
    and r2: "retrieve ev' create' cache2 key w2 = (object', cache3, w3)"
  from retrieve_props(1) [OF r1] g have "map_of cache2 key = Some object"
    by (rule grown_keeps [rotated])
  from retrieve_props(8) [OF r2 this]
  show "object' = object" and "cache3 = cache2" and "next_handle w3 = next_handle w2"
    by simp_all
next
  assume "retrieve ev create cache key w = (object, cache1, w1)"
    and "distinct (map fst cache)"
  then show "distinct (map fst cache1)" by (rule retrieve_distinct)
next
  assume d1: "dispatch debug this1 u cb1 sig desc g1 l params1 args1 = Inr (cb1', u1)"
    and lt: "later debug u1 u2"
    and d2: "dispatch debug this2 u2 cb2 sig desc g2 l params2 args2 = Inr (cb2', u3)"
    and sz: "sizeof params2 = sizeof params1"
  from d1 obtain u0 :: world and c1 sl pl sm p ds1 where
    h: "heap u1 = (heap u0)(singleton u \<mapsto> c1)"
    and s1: "singleton u1 = singleton u"
    and e: "map_of (shader_layout_cache (shader' c1)) sig = Some sl"
      "map_of (pipeline_layout_cache (pipeline' c1)) (handle sl, sizeof params1) = Some pl"
      "map_of (shader_cache (shader' c1)) desc = Some sm"
      "map_of (pipeline_cache (pipeline' c1)) (pl, sm, l) = Some p"
    and cm1: "commands cb1' = commands cb1 @ dispatch_commands pl params1 p ds1 g1"
    by (rule dispatch_Inr_effects)
  from h s1 have c1: "heap u1 (singleton u1) = Some c1" by simp
  from later_grown [OF lt c1] obtain c2 where
    s2: "singleton u2 = singleton u1" and c2: "heap u2 (singleton u1) = Some c2"
    and gr: "grown (shader_layout_cache (shader' c1)) (shader_layout_cache (shader' c2))"
       "grown (pipeline_layout_cache (pipeline' c1)) (pipeline_layout_cache (pipeline' c2))"
       "grown (shader_cache (shader' c1)) (shader_cache (shader' c2))"
       "grown (pipeline_cache (pipeline' c1)) (pipeline_cache (pipeline' c2))"
    by blast
  from c2 s2 have c2': "heap u2 (singleton u2) = Some c2" by simp
  have e2: "map_of (shader_layout_cache (shader' c2)) sig = Some sl"
      "map_of (pipeline_layout_cache (pipeline' c2)) (handle sl, sizeof params2) = Some pl"
      "map_of (shader_cache (shader' c2)) desc = Some sm"
      "map_of (pipeline_cache (pipeline' c2)) (pl, sm, l) = Some p"
    using gr e by (simp_all add: sz grown_keeps)
  note H = dispatch_all_hits [OF d2 c2' e2]
  from H(1) obtain ds2 where cm2: "commands cb2' = commands cb2 @ dispatch_commands pl params2 p ds2 g2" ..
  from cm1 cm2 show "\<exists>pl p ds1 ds2.
         commands cb1' = commands cb1 @
           [Push_Constants pl VK_SHADER_STAGE_COMPUTE_BIT 0 (sizeof params1) params1,
            Bind_Pipeline p, Bind_Descriptor_Set ds1, Dispatch g1] \<and>
         commands cb2' = commands cb2 @
           [Push_Constants pl VK_SHADER_STAGE_COMPUTE_BIT 0 (sizeof params2) params2,
            Bind_Pipeline p, Bind_Descriptor_Set ds2, Dispatch g2]"
    unfolding dispatch_commands_def by blast
  from H(2) obtain c3 where c3: "heap u3 (singleton u2) = Some c3"
    "shader' c3 = shader' c2" "pipeline' c3 = pipeline' c2" by blast
  from dispatch_Inr_singleton [OF d2] have s3: "singleton u3 = singleton u2" .
  show "map_option shader' (heap u3 (singleton u3)) = map_option shader' (heap u2 (singleton u2))"
    by (simp add: s3 c3 c2')
  show "map_option pipeline' (heap u3 (singleton u3)) =
        map_option pipeline' (heap u2 (singleton u2))"
    by (simp add: s3 c3 c2')
  show "next_handle u3 = Suc (next_handle u2)" by (rule H(3))
qed

text \<open>
  Two dispatches in a fresh process, with the same signature, kernel, local work group
  size and parameter block size, and different buffers, arguments and global work groups:
  both use the pipeline layout 4 and the pipeline 6; and a cache asked for the key
  \<open>a\<close>, then \<open>b\<close>, then \<open>a\<close> again.
\<close>

theorem identical_keys_resolve_to_identical_objects_witness:
  "(case dispatch True 7 w_init \<lparr>buffer_handle = 100, commands = []\<rparr>
        [(Storage_Image, 0x20, 1), (Uniform_Buffer, 0x20, 1)] (''hardsigmoid_'', [])
        (2, 1, 1) (1, 1, 1) [2, 0, 0, 0] [Resource_Image 50, Resource_Uniform 51] of
      Inl _ \<Rightarrow> False
    | Inr (cb1', u1) \<Rightarrow>
        commands cb1' =
          [Push_Constants 4 0x20 0 4 [2, 0, 0, 0], Bind_Pipeline 6,
           Bind_Descriptor_Set \<lparr>set_handle = 7, set_layout = 3, set_slots = 2,
             bindings = [(0, Resource_Image 50), (1, Resource_Uniform 51)]\<rparr>,
           Dispatch (2, 1, 1)] \<and>
        next_handle u1 = 7 \<and>
        (case dispatch True 8 u1 \<lparr>buffer_handle = 101, commands = []\<rparr>
            [(Storage_Image, 0x20, 1), (Uniform_Buffer, 0x20, 1)] (''hardsigmoid_'', [])
            (4, 4, 1) (1, 1, 1) [4, 4, 0, 0] [Resource_Image 60, Resource_Uniform 61] of
          Inl _ \<Rightarrow> False
        | Inr (cb2', u3) \<Rightarrow>
            commands cb2' =
              [Push_Constants 4 0x20 0 4 [4, 4, 0, 0], Bind_Pipeline 6,
               Bind_Descriptor_Set \<lparr>set_handle = 8, set_layout = 3, set_slots = 2,
                 bindings = [(0, Resource_Image 60), (1, Resource_Uniform 61)]\<rparr>,
               Dispatch (4, 4, 1)] \<and>
            next_handle u3 = 8 \<and>
            map_option shader' (heap u3 0) = map_option shader' (heap u1 0) \<and>
            map_option pipeline' (heap u3 0) = map_option pipeline' (heap u1 0))) \<and>
   (case retrieve Retrieve_Shader (\<lambda>key h. h) [] (''a'', []) w_init of
      (object, cache1, w1) \<Rightarrow>
        (case retrieve Retrieve_Shader (\<lambda>key h. h) cache1 (''b'', []) w1 of
           (other, cache2, w2) \<Rightarrow>
             (case retrieve Retrieve_Shader (\<lambda>key h. h) cache2 (''a'', []) w2 of
                (object', cache3, w3) \<Rightarrow>
                  object = 1 \<and> other = 2 \<and> object' = 1 \<and> cache3 = cache2 \<and>
                  next_handle w3 = next_handle w2 \<and> distinct (map fst cache1))))"
proof -
  let ?r1 = "dispatch True 7 w_init \<lparr>buffer_handle = 100, commands = []\<rparr>
        [(Storage_Image, 0x20, 1), (Uniform_Buffer, 0x20, 1)] (''hardsigmoid_'', [])
        (2, 1, 1) (1, 1, 1) [2, 0, 0, 0] [Resource_Image 50, Resource_Uniform 51]"
  let ?u1 = "snd (projr ?r1)"
  let ?r2 = "dispatch True 8 ?u1 \<lparr>buffer_handle = 101, commands = []\<rparr>
            [(Storage_Image, 0x20, 1), (Uniform_Buffer, 0x20, 1)] (''hardsigmoid_'', [])
            (4, 4, 1) (1, 1, 1) [4, 4, 0, 0] [Resource_Image 60, Resource_Uniform 61]"
  let ?a = "retrieve Retrieve_Shader (\<lambda>key h. h) [] (''a'', []) w_init"
  let ?b = "retrieve Retrieve_Shader (\<lambda>key h. h) (fst (snd ?a)) (''b'', []) (snd (snd ?a))"
  let ?c = "retrieve Retrieve_Shader (\<lambda>key h. h) (fst (snd ?b)) (''a'', []) (snd (snd ?b))"
  have d1: "?r1 = Inr (fst (projr ?r1), ?u1)"
    by (simp add: dispatch_eval)
  have lt: "later True ?u1 ?u1" by (rule later_refl)
  have d2: "?r2 = Inr (fst (projr ?r2), snd (projr ?r2))"
    by (simp add: dispatch_eval)
  have sz: "sizeof [4, 4, 0, 0] = sizeof [2, 0, 0, 0]" by (simp add: sizeof_def)
  have a: "?a = (fst ?a, fst (snd ?a), snd (snd ?a))" by simp
  have b: "?b = (fst ?b, fst (snd ?b), snd (snd ?b))" by simp
  have c: "?c = (fst ?c, fst (snd ?c), snd (snd ?c))" by simp
  have g: "grown (fst (snd ?a)) (fst (snd ?b))"
    by (rule grown_retrieve [OF grown_refl b])
  note T = identical_keys_resolve_to_identical_objects
    [of Retrieve_Shader "\<lambda>key h. h" "[]" "(''a'', [])" w_init "fst ?a" "fst (snd ?a)" "snd (snd ?a)"
      "fst (snd ?b)" Retrieve_Shader "\<lambda>key h. h" "snd (snd ?b)" "fst ?c" "fst (snd ?c)" "snd (snd ?c)"
      True 7 w_init "\<lparr>buffer_handle = 100, commands = []\<rparr>"
      "[(Storage_Image, 0x20, 1), (Uniform_Buffer, 0x20, 1)]" "(''hardsigmoid_'', [])"
      "(2, 1, 1)" "(1, 1, 1)" "[2, 0, 0, 0]" "[Resource_Image 50, Resource_Uniform 51]"
      "fst (projr ?r1)" ?u1 ?u1 8 "\<lparr>buffer_handle = 101, commands = []\<rparr>"
      "(4, 4, 1)" "[4, 4, 0, 0]" "[Resource_Image 60, Resource_Uniform 61]"
      "fst (projr ?r2)" "snd (projr ?r2)"]
  from T a g c have same: "fst ?c = fst ?a \<and> fst (snd ?c) = fst (snd ?b)"
    by blast
  from T a have dist: "distinct (map fst (fst (snd ?a)))"
    by simp
  from T d1 lt d2 sz have fresh: "next_handle (snd (projr ?r2)) = Suc (next_handle ?u1)"
    by blast
  from same dist fresh show ?thesis
    by (simp add: dispatch_eval)
qed

section \<open>The order of the effects of dispatch\<close>

text \<open>
  C2.  A call of \<open>dispatch\<close> that fails on an assertion adds no event; one that fails
  at the binding adds the events below up to the allocation of the descriptor set, in
  their order, and then the binding of argument \<open>i\<close> at slot \<open>i\<close> for every \<open>i\<close> below both
  the number of arguments and the number of slots of the layout, and nothing else; no
  call fails in another way.  A call that returns adds exactly
  these events, in this order: the retrieval of the descriptor-set layout, the retrieval
  of the pipeline layout, the push of the parameter block into the command buffer, the
  retrieval of the shader module, the retrieval of the pipeline, the binding of the
  pipeline into the command buffer, the allocation of a descriptor set from the layout,
  the binding of each argument into the set, the binding of the set into the command
  buffer, and the recording of the dispatch with the global work group; the command
  buffer gains the four recorded operations in this order; and none of the events
  submits work to the queue or waits for it.
\<close>

theorem dispatch_records_in_order:
  "(dispatch debug this w cb sig desc g l params args = Inl (e, w'') \<longrightarrow>
      (e = Internal_Assert \<and> trace w'' = trace w \<or>
       e = Binding_Error \<and>
       (\<exists>sl pl sm p h.
          trace w'' = trace w @
            [Retrieve_Shader_Layout sig sl,
               Retrieve_Pipeline_Layout (handle sl, sizeof params) pl,
               Record (buffer_handle cb)
                 (Push_Constants pl VK_SHADER_STAGE_COMPUTE_BIT 0 (sizeof params) params),
               Retrieve_Shader desc sm,
               Retrieve_Pipeline (pl, sm, l) p,
               Record (buffer_handle cb) (Bind_Pipeline p),
               Allocate (handle sl) h] @
            map (\<lambda>i. Bind h i (args ! i)) [0..<min (length args) (slot_count sl)])) \<and>
      filter is_submission (drop (length (trace w)) (trace w'')) = []) \<and>
   (dispatch debug this w cb sig desc g l params args = Inr (cb', w') \<longrightarrow>
      (\<exists>sl pl sm p ds.
         trace w' = trace w @
           [Retrieve_Shader_Layout sig sl,
            Retrieve_Pipeline_Layout (handle sl, sizeof params) pl,
            Record (buffer_handle cb)
              (Push_Constants pl VK_SHADER_STAGE_COMPUTE_BIT 0 (sizeof params) params),
            Retrieve_Shader desc sm,
            Retrieve_Pipeline (pl, sm, l) p,
            Record (buffer_handle cb) (Bind_Pipeline p),
            Allocate (handle sl) (set_handle ds)] @
           map (\<lambda>i. Bind (set_handle ds) i (args ! i)) [0..<length args] @
           [Record (buffer_handle cb) (Bind_Descriptor_Set ds),
            Record (buffer_handle cb) (Dispatch g)] \<and>
         commands cb' = commands cb @
           [Push_Constants pl VK_SHADER_STAGE_COMPUTE_BIT 0 (sizeof params) params,
            Bind_Pipeline p, Bind_Descriptor_Set ds, Dispatch g]) \<and>
      filter is_submission (drop (length (trace w)) (trace w')) = [])"
proof (intro conjI impI)
  assume f: "dispatch debug this w cb sig desc g l params args = Inl (e, w'')"
  from f show "e = Internal_Assert \<and> trace w'' = trace w \<or>
       e = Binding_Error \<and>
       (\<exists>sl pl sm p h.
          trace w'' = trace w @
            [Retrieve_Shader_Layout sig sl,
               Retrieve_Pipeline_Layout (handle sl, sizeof params) pl,
               Record (buffer_handle cb)
                 (Push_Constants pl VK_SHADER_STAGE_COMPUTE_BIT 0 (sizeof params) params),
               Retrieve_Shader desc sm,
               Retrieve_Pipeline (pl, sm, l) p,
               Record (buffer_handle cb) (Bind_Pipeline p),
               Allocate (handle sl) h] @
            map (\<lambda>i. Bind h i (args ! i)) [0..<min (length args) (slot_count sl)])"
  proof (cases rule: dispatch_Inl_effects)
    case (assert c)
    from api_context_props(4) [OF assert(1)] assert(5) show ?thesis by simp
  next
    case (binding w0 c c' sl pl sm p h)
    from binding(4,10) show ?thesis by blast
  qed
  from f show "filter is_submission (drop (length (trace w)) (trace w'')) = []"
  proof (cases rule: dispatch_Inl_effects)
    case (assert c)
    from api_context_props(4) [OF assert(1)] show ?thesis by simp
  next
    case (binding w0 c c' sl pl sm p h)
    from binding(10) show ?thesis by (simp add: filter_empty_conv)
  qed
next
  assume d: "dispatch debug this w cb sig desc g l params args = Inr (cb', w')"
  then obtain sl pl sm p ds where
    cmds: "commands cb' = commands cb @ dispatch_commands pl params p ds g"
    and tr: "trace w' = trace w @
       [Retrieve_Shader_Layout sig sl,
        Retrieve_Pipeline_Layout (handle sl, sizeof params) pl,
        Record (buffer_handle cb)
          (Push_Constants pl VK_SHADER_STAGE_COMPUTE_BIT 0 (sizeof params) params),
        Retrieve_Shader desc sm,
        Retrieve_Pipeline (pl, sm, l) p,
        Record (buffer_handle cb) (Bind_Pipeline p),
        Allocate (handle sl) (set_handle ds)] @
       map (\<lambda>(i, a). Bind (set_handle ds) i a) (zip [0..<length args] args) @
       [Record (buffer_handle cb) (Bind_Descriptor_Set ds),
        Record (buffer_handle cb) (Dispatch g)]"
    by (rule dispatch_Inr_effects)
  from tr show "filter is_submission (drop (length (trace w)) (trace w')) = []"
    by (simp add: bind_events filter_empty_conv)
  from tr cmds show "\<exists>sl pl sm p ds.
         trace w' = trace w @
           [Retrieve_Shader_Layout sig sl,
            Retrieve_Pipeline_Layout (handle sl, sizeof params) pl,
            Record (buffer_handle cb)
              (Push_Constants pl VK_SHADER_STAGE_COMPUTE_BIT 0 (sizeof params) params),
            Retrieve_Shader desc sm,
            Retrieve_Pipeline (pl, sm, l) p,
            Record (buffer_handle cb) (Bind_Pipeline p),
            Allocate (handle sl) (set_handle ds)] @
           map (\<lambda>i. Bind (set_handle ds) i (args ! i)) [0..<length args] @
           [Record (buffer_handle cb) (Bind_Descriptor_Set ds),
            Record (buffer_handle cb) (Dispatch g)] \<and>
         commands cb' = commands cb @
           [Push_Constants pl VK_SHADER_STAGE_COMPUTE_BIT 0 (sizeof params) params,
            Bind_Pipeline p, Bind_Descriptor_Set ds, Dispatch g]"
    unfolding bind_events dispatch_commands_def by blast
qed

text \<open>
  A dispatch in a fresh process with two arguments and a signature of two slots, which
  returns; and one with three arguments and the same signature, which fails at the
  binding of the third.
\<close>

theorem dispatch_records_in_order_witness:
  "(case dispatch True 7 w_init \<lparr>buffer_handle = 100, commands = []\<rparr>
        [(Storage_Image, 0x20, 1), (Uniform_Buffer, 0x20, 1)] (''hardsigmoid_'', [])
        (2, 1, 1) (1, 1, 1) [2, 0, 0, 0] [Resource_Image 50, Resource_Uniform 51] of
      Inl _ \<Rightarrow> False
    | Inr (cb', w') \<Rightarrow>
        trace w' =
          [Retrieve_Shader_Layout [(Storage_Image, 0x20, 1), (Uniform_Buffer, 0x20, 1)]
             \<lparr>handle = 3, slot_count = 2\<rparr>,
           Retrieve_Pipeline_Layout (3, 4) 4,
           Record 100 (Push_Constants 4 0x20 0 4 [2, 0, 0, 0]),
           Retrieve_Shader (''hardsigmoid_'', []) 5,
           Retrieve_Pipeline (4, 5, 1, 1, 1) 6,
           Record 100 (Bind_Pipeline 6),
           Allocate 3 7,
           Bind 7 0 (Resource_Image 50),
           Bind 7 1 (Resource_Uniform 51),
           Record 100 (Bind_Descriptor_Set
             \<lparr>set_handle = 7, set_layout = 3, set_slots = 2,
              bindings = [(0, Resource_Image 50), (1, Resource_Uniform 51)]\<rparr>),
           Record 100 (Dispatch (2, 1, 1))] \<and>
        filter is_submission (drop (length (trace w_init)) (trace w')) = []) \<and>
   (case dispatch True 7 w_init \<lparr>buffer_handle = 100, commands = []\<rparr>
        [(Storage_Image, 0x20, 1), (Uniform_Buffer, 0x20, 1)] (''hardsigmoid_'', [])
        (2, 1, 1) (1, 1, 1) [2, 0, 0, 0]
        [Resource_Image 50, Resource_Uniform 51, Resource_Buffer 52] of
      Inl (e, w'') \<Rightarrow>
        e = Binding_Error \<and>
        trace w'' =
          [Retrieve_Shader_Layout [(Storage_Image, 0x20, 1), (Uniform_Buffer, 0x20, 1)]
             \<lparr>handle = 3, slot_count = 2\<rparr>,
           Retrieve_Pipeline_Layout (3, 4) 4,
           Record 100 (Push_Constants 4 0x20 0 4 [2, 0, 0, 0]),
           Retrieve_Shader (''hardsigmoid_'', []) 5,
           Retrieve_Pipeline (4, 5, 1, 1, 1) 6,
           Record 100 (Bind_Pipeline 6),
           Allocate 3 7,
           Bind 7 0 (Resource_Image 50),
           Bind 7 1 (Resource_Uniform 51)] \<and>
        filter is_submission (drop (length (trace w_init)) (trace w'')) = []
    | Inr _ \<Rightarrow> False)"
proof -
  let ?r = "dispatch True 7 w_init \<lparr>buffer_handle = 100, commands = []\<rparr>
        [(Storage_Image, 0x20, 1), (Uniform_Buffer, 0x20, 1)] (''hardsigmoid_'', [])
        (2, 1, 1) (1, 1, 1) [2, 0, 0, 0] [Resource_Image 50, Resource_Uniform 51]"
  let ?f = "dispatch True 7 w_init \<lparr>buffer_handle = 100, commands = []\<rparr>
        [(Storage_Image, 0x20, 1), (Uniform_Buffer, 0x20, 1)] (''hardsigmoid_'', [])
        (2, 1, 1) (1, 1, 1) [2, 0, 0, 0]
        [Resource_Image 50, Resource_Uniform 51, Resource_Buffer 52]"
  have d: "?r = Inr (fst (projr ?r), snd (projr ?r))"
    by (simp add: dispatch_eval)
  have f: "?f = Inl (fst (projl ?f), snd (projl ?f))"
    by (simp add: dispatch_eval)
  from d dispatch_records_in_order [of True 7 w_init "\<lparr>buffer_handle = 100, commands = []\<rparr>"
        "[(Storage_Image, 0x20, 1), (Uniform_Buffer, 0x20, 1)]" "(''hardsigmoid_'', [])"
        "(2, 1, 1)" "(1, 1, 1)" "[2, 0, 0, 0]" "[Resource_Image 50, Resource_Uniform 51]"
        Internal_Assert w_init "fst (projr ?r)" "snd (projr ?r)"]
  have 1: "filter is_submission (drop (length (trace w_init)) (trace (snd (projr ?r)))) = []"
    by blast
  from f dispatch_records_in_order [of True 7 w_init "\<lparr>buffer_handle = 100, commands = []\<rparr>"
        "[(Storage_Image, 0x20, 1), (Uniform_Buffer, 0x20, 1)]" "(''hardsigmoid_'', [])"
        "(2, 1, 1)" "(1, 1, 1)" "[2, 0, 0, 0]"
        "[Resource_Image 50, Resource_Uniform 51, Resource_Buffer 52]"
        "fst (projl ?f)" "snd (projl ?f)" "\<lparr>buffer_handle = 100, commands = []\<rparr>" w_init]
  have 2: "filter is_submission (drop (length (trace w_init)) (trace (snd (projl ?f)))) = []"
    by blast
  from 1 2 show ?thesis
    by (simp add: dispatch_eval)
qed

text \<open>
  C3.  After a call of \<open>dispatch\<close> that returns, the descriptor set bound into the
  command buffer has a handle that the driver gave out during the call, and its bindings
  are, in this order, argument \<open>i\<close> at slot \<open>i\<close> for \<open>i\<close> from \<open>0\<close> to the number of
  arguments less one.
\<close>

theorem dispatch_binds_argument_at_its_position:
  assumes "dispatch debug this w cb sig desc g l params args = Inr (cb', w')"
  shows "\<exists>ds. commands cb' ! (length (commands cb) + 2) = Bind_Descriptor_Set ds \<and>
           next_handle w < set_handle ds \<and>
           bindings ds = map (\<lambda>i. (i, args ! i)) [0..<length args] \<and>
           (\<forall>i<length args. bindings ds ! i = (i, args ! i) \<and>
              map_of (bindings ds) i = Some (args ! i))"
  using assms
proof (rule dispatch_Inr_effects)
  fix w0 sl pl p ds
  assume a: "api_context w = (singleton w, w0)"
    and ds: "ds = \<lparr>set_handle = next_handle w', set_layout = handle sl,
            set_slots = slot_count sl, bindings = zip [0..<length args] args\<rparr>"
    and nh: "next_handle w0 < next_handle w'"
    and cmds: "commands cb' = commands cb @ dispatch_commands pl params p ds g"
  have "commands cb' ! (length (commands cb) + 2) = Bind_Descriptor_Set ds"
    by (simp add: cmds dispatch_commands_def nth_append)
  moreover have "next_handle w < set_handle ds"
    using api_context_props(8) [OF a] nh by (simp add: ds)
  moreover have b: "bindings ds = map (\<lambda>i. (i, args ! i)) [0..<length args]"
    by (simp add: ds zip_upt_nth)
  moreover have "\<forall>i<length args. bindings ds ! i = (i, args ! i) \<and>
      map_of (bindings ds) i = Some (args ! i)"
    unfolding b by (simp add: map_of_indexed)
  ultimately show ?thesis by blast
qed

theorem dispatch_binds_argument_at_its_position_witness:
  "(case dispatch True 7 w_init \<lparr>buffer_handle = 100, commands = []\<rparr>
        [(Storage_Image, 0x20, 1), (Uniform_Buffer, 0x20, 1)] (''hardsigmoid_'', [])
        (2, 1, 1) (1, 1, 1) [2, 0, 0, 0] [Resource_Image 50, Resource_Uniform 51] of
      Inl _ \<Rightarrow> False
    | Inr (cb', w') \<Rightarrow>
        commands cb' ! 2 = Bind_Descriptor_Set
          \<lparr>set_handle = 7, set_layout = 3, set_slots = 2,
           bindings = [(0, Resource_Image 50), (1, Resource_Uniform 51)]\<rparr>)"
proof -
  let ?r = "dispatch True 7 w_init \<lparr>buffer_handle = 100, commands = []\<rparr>
        [(Storage_Image, 0x20, 1), (Uniform_Buffer, 0x20, 1)] (''hardsigmoid_'', [])
        (2, 1, 1) (1, 1, 1) [2, 0, 0, 0] [Resource_Image 50, Resource_Uniform 51]"
  have d: "?r = Inr (fst (projr ?r), snd (projr ?r))"
    by (simp add: dispatch_eval)
  from dispatch_binds_argument_at_its_position [OF d] show ?thesis
    by (simp add: dispatch_eval)
qed

section \<open>The argument count and the signature\<close>

text \<open>
  C4.  In a state in which every descriptor-set layout in the cache of the singleton has
  the slots of its signature, as every state that \<open>dispatch\<close> has produced from a fresh
  process has: a call of \<open>dispatch\<close> whose number of resource arguments differs from the
  number of slots of the signature fails.  When the debug assertions pass it fails with
  the binding error, after the allocation of the descriptor set and the binding of
  argument \<open>i\<close> at slot \<open>i\<close> for every \<open>i\<close> below both the number of arguments and the
  number of slots, and of nothing else: no argument is bound at another slot, and
  neither the binding of the set into the command buffer nor the dispatch is recorded.
  A call with as many arguments as the signature has slots returns when the assertions
  pass; a call that returns has as many arguments as the signature has slots; and the
  layouts have the slots of their signatures after the call, whether it returns or fails.
\<close>

theorem dispatch_fails_at_bind_time_on_a_count_mismatch:
  assumes "layouts_consistent w"
  shows "(length args \<noteq> length sig \<longrightarrow>
            (\<exists>e w'. dispatch debug this w cb sig desc g l params args = Inl (e, w'))) \<and>
         (length args \<noteq> length sig \<and> assertions_pass debug w \<longrightarrow>
            (\<exists>w' sl pl sm p h.
               dispatch debug this w cb sig desc g l params args = Inl (Binding_Error, w') \<and>
               slot_count sl = length sig \<and>
               trace w' = trace w @
                 [Retrieve_Shader_Layout sig sl,
                  Retrieve_Pipeline_Layout (handle sl, sizeof params) pl,
                  Record (buffer_handle cb)
                    (Push_Constants pl VK_SHADER_STAGE_COMPUTE_BIT 0 (sizeof params) params),
                  Retrieve_Shader desc sm,
                  Retrieve_Pipeline (pl, sm, l) p,
                  Record (buffer_handle cb) (Bind_Pipeline p),
                  Allocate (handle sl) h] @
                 map (\<lambda>i. Bind h i (args ! i)) [0..<min (length args) (length sig)])) \<and>
         (length args = length sig \<and> assertions_pass debug w \<longrightarrow>
            (\<exists>cb' w'. dispatch debug this w cb sig desc g l params args = Inr (cb', w'))) \<and>
         (dispatch debug this w cb sig desc g l params args = Inr (cb', w') \<longrightarrow>
            length args = length sig \<and> layouts_consistent w') \<and>
         (dispatch debug this w cb sig desc g l params args = Inl (e, w'') \<longrightarrow>
            layouts_consistent w'')"
proof (intro conjI impI)
  assume n: "length args \<noteq> length sig"
  show "\<exists>e w'. dispatch debug this w cb sig desc g l params args = Inl (e, w')"
  proof (cases "assertions_pass debug w")
    case True
    from dispatch_outcome(2) [OF assms True, of args sig this cb desc g l params] n
    show ?thesis by blast
  next
    case False
    then show ?thesis by (blast dest: dispatch_fails_without_assertions)
  qed
next
  assume "length args \<noteq> length sig \<and> assertions_pass debug w"
  then have n: "length args \<noteq> length sig" and ap: "assertions_pass debug w"
    by simp_all
  from dispatch_outcome(2) [OF assms ap, of args sig this cb desc g l params] n
  obtain w' where d: "dispatch debug this w cb sig desc g l params args = Inl (Binding_Error, w')"
    by blast
  from d show "\<exists>w' sl pl sm p h.
               dispatch debug this w cb sig desc g l params args = Inl (Binding_Error, w') \<and>
               slot_count sl = length sig \<and>
               trace w' = trace w @
                 [Retrieve_Shader_Layout sig sl,
                  Retrieve_Pipeline_Layout (handle sl, sizeof params) pl,
                  Record (buffer_handle cb)
                    (Push_Constants pl VK_SHADER_STAGE_COMPUTE_BIT 0 (sizeof params) params),
                  Retrieve_Shader desc sm,
                  Retrieve_Pipeline (pl, sm, l) p,
                  Record (buffer_handle cb) (Bind_Pipeline p),
                  Allocate (handle sl) h] @
                 map (\<lambda>i. Bind h i (args ! i)) [0..<min (length args) (length sig)]"
  proof (cases rule: dispatch_Inl_effects)
    case (assert c)
    then show ?thesis by simp
  next
    case (binding w0 c c' sl pl sm p h)
    from binding(11) start_consistent [OF binding(1,2) assms]
    have "slot_count sl = length sig" by simp
    with d binding(10) show ?thesis by auto
  qed
next
  assume "length args = length sig \<and> assertions_pass debug w"
  with dispatch_outcome(1) [OF assms, of debug args sig this cb desc g l params]
  show "\<exists>cb' w'. dispatch debug this w cb sig desc g l params args = Inr (cb', w')"
    by simp
next
  assume "dispatch debug this w cb sig desc g l params args = Inr (cb', w')"
  then show "length args = length sig" and "layouts_consistent w'"
    using assms by (rule dispatch_Inr_consistent)+
next
  assume "dispatch debug this w cb sig desc g l params args = Inl (e, w'')"
  then show "layouts_consistent w''"
    using assms by (rule dispatch_Inl_consistent)
qed

text \<open>
  In a fresh process, a dispatch with three arguments and a signature of two slots fails
  when the third argument is bound; and after a dispatch with two arguments that returns,
  a dispatch with one argument and the same signature, whose layout comes from the cache,
  fails when the set is bound into the command buffer.
\<close>

theorem dispatch_fails_at_bind_time_on_a_count_mismatch_witness:
  "layouts_consistent w_init \<and>
   (case dispatch True 0 w_init \<lparr>buffer_handle = 100, commands = []\<rparr>
        [(Storage_Image, 0x20, 1), (Uniform_Buffer, 0x20, 1)] (''hardsigmoid_'', [])
        (2, 1, 1) (1, 1, 1) [2, 0, 0, 0]
        [Resource_Image 50, Resource_Uniform 51, Resource_Buffer 52] of
      Inl (e, w') \<Rightarrow>
        e = Binding_Error \<and>
        trace w' =
          [Retrieve_Shader_Layout [(Storage_Image, 0x20, 1), (Uniform_Buffer, 0x20, 1)]
             \<lparr>handle = 3, slot_count = 2\<rparr>,
           Retrieve_Pipeline_Layout (3, 4) 4,
           Record 100 (Push_Constants 4 0x20 0 4 [2, 0, 0, 0]),
           Retrieve_Shader (''hardsigmoid_'', []) 5,
           Retrieve_Pipeline (4, 5, 1, 1, 1) 6,
           Record 100 (Bind_Pipeline 6),
           Allocate 3 7,
           Bind 7 0 (Resource_Image 50),
           Bind 7 1 (Resource_Uniform 51)]
    | Inr _ \<Rightarrow> False) \<and>
   layouts_consistent
     (snd (projr (dispatch True 0 w_init \<lparr>buffer_handle = 100, commands = []\<rparr>
        [(Storage_Image, 0x20, 1), (Uniform_Buffer, 0x20, 1)] (''hardsigmoid_'', [])
        (2, 1, 1) (1, 1, 1) [2, 0, 0, 0] [Resource_Image 50, Resource_Uniform 51]))) \<and>
   (case dispatch True 0
        (snd (projr (dispatch True 0 w_init \<lparr>buffer_handle = 100, commands = []\<rparr>
          [(Storage_Image, 0x20, 1), (Uniform_Buffer, 0x20, 1)] (''hardsigmoid_'', [])
          (2, 1, 1) (1, 1, 1) [2, 0, 0, 0] [Resource_Image 50, Resource_Uniform 51])))
        \<lparr>buffer_handle = 101, commands = []\<rparr>
        [(Storage_Image, 0x20, 1), (Uniform_Buffer, 0x20, 1)] (''hardsigmoid_'', [])
        (2, 1, 1) (1, 1, 1) [2, 0, 0, 0] [Resource_Image 60] of
      Inl (e, w') \<Rightarrow>
        e = Binding_Error \<and>
        drop 11 (trace w') =
          [Retrieve_Shader_Layout [(Storage_Image, 0x20, 1), (Uniform_Buffer, 0x20, 1)]
             \<lparr>handle = 3, slot_count = 2\<rparr>,
           Retrieve_Pipeline_Layout (3, 4) 4,
           Record 101 (Push_Constants 4 0x20 0 4 [2, 0, 0, 0]),
           Retrieve_Shader (''hardsigmoid_'', []) 5,
           Retrieve_Pipeline (4, 5, 1, 1, 1) 6,
           Record 101 (Bind_Pipeline 6),
           Allocate 3 8,
           Bind 8 0 (Resource_Image 60)]
    | Inr _ \<Rightarrow> False)"
proof -
  let ?u = "snd (projr (dispatch True 0 w_init \<lparr>buffer_handle = 100, commands = []\<rparr>
        [(Storage_Image, 0x20, 1), (Uniform_Buffer, 0x20, 1)] (''hardsigmoid_'', [])
        (2, 1, 1) (1, 1, 1) [2, 0, 0, 0] [Resource_Image 50, Resource_Uniform 51]))"
  have k: "layouts_consistent w_init"
    by (simp add: layouts_consistent_def w_init_def)
  have ku: "layouts_consistent ?u"
    by (simp add: layouts_consistent_def dispatch_eval)
  from dispatch_fails_at_bind_time_on_a_count_mismatch [OF k,
      of "[Resource_Image 50, Resource_Uniform 51, Resource_Buffer 52]"
      "[(Storage_Image, 0x20, 1), (Uniform_Buffer, 0x20, 1)]" True 0
      "\<lparr>buffer_handle = 100, commands = []\<rparr>" "(''hardsigmoid_'', [])"
      "(2, 1, 1)" "(1, 1, 1)" "[2, 0, 0, 0]"]
  have 1: "\<exists>e w'. dispatch True 0 w_init \<lparr>buffer_handle = 100, commands = []\<rparr>
        [(Storage_Image, 0x20, 1), (Uniform_Buffer, 0x20, 1)] (''hardsigmoid_'', [])
        (2, 1, 1) (1, 1, 1) [2, 0, 0, 0]
        [Resource_Image 50, Resource_Uniform 51, Resource_Buffer 52] = Inl (e, w')"
    by simp
  from dispatch_fails_at_bind_time_on_a_count_mismatch [OF ku,
      of "[Resource_Image 60]"
      "[(Storage_Image, 0x20, 1), (Uniform_Buffer, 0x20, 1)]" True 0
      "\<lparr>buffer_handle = 101, commands = []\<rparr>" "(''hardsigmoid_'', [])"
      "(2, 1, 1)" "(1, 1, 1)" "[2, 0, 0, 0]"]
  have 2: "\<exists>e w'. dispatch True 0 ?u \<lparr>buffer_handle = 101, commands = []\<rparr>
        [(Storage_Image, 0x20, 1), (Uniform_Buffer, 0x20, 1)] (''hardsigmoid_'', [])
        (2, 1, 1) (1, 1, 1) [2, 0, 0, 0] [Resource_Image 60] = Inl (e, w')"
    by simp
  from 1 2 k ku show ?thesis
    by (simp add: dispatch_eval)
qed

section \<open>The device and queue accessors\<close>

text \<open>
  C6.  On a \<open>Context\<close> whose device is not set, \<open>device\<close> fails with the assertion in
  a debug build, and in a release build returns the unset handle without a check;
  likewise \<open>queue\<close> for the queue.  On a \<open>Context\<close> whose device (queue) is set,
  \<open>device\<close> (\<open>queue\<close>) returns it in both builds.  In a debug build, \<open>dispatch\<close> on a
  singleton whose device or queue is not set fails with the assertion and leaves the
  state as it was.
\<close>

theorem device_and_queue_assert_in_debug_builds_only:
  "(device' c = 0 \<longrightarrow> device True c = Inl Internal_Assert \<and> device False c = Inr (device' c)) \<and>
   (queue' c = 0 \<longrightarrow> queue True c = Inl Internal_Assert \<and> queue False c = Inr (queue' c)) \<and>
   (device' c \<noteq> 0 \<longrightarrow> device debug c = Inr (device' c)) \<and>
   (queue' c \<noteq> 0 \<longrightarrow> queue debug c = Inr (queue' c)) \<and>
   (heap w (singleton w) = Some c \<and> (device' c = 0 \<or> queue' c = 0) \<longrightarrow>
      dispatch True this w cb sig desc g l params args = Inl (Internal_Assert, w))"
proof (intro conjI impI)
  assume "heap w (singleton w) = Some c \<and> (device' c = 0 \<or> queue' c = 0)"
  then have c: "heap w (singleton w) = Some c" and z: "device' c = 0 \<or> queue' c = 0"
    by simp_all
  from c have a: "api_context w = (singleton w, w)" by (simp add: api_context_def)
  from z have "gpu True c = Inl Internal_Assert"
    by (auto simp: gpu_def device_def queue_def TORCH_INTERNAL_ASSERT_DEBUG_ONLY_def)
  with a c show "dispatch True this w cb sig desc g l params args = Inl (Internal_Assert, w)"
    by (simp add: dispatch_def)
qed (simp_all add: device_def queue_def TORCH_INTERNAL_ASSERT_DEBUG_ONLY_def)

theorem device_and_queue_assert_in_debug_builds_only_witness:
  "device True \<lparr>adapter' = 0, device' = 0, queue' = 0, command' = [],
        shader' = \<lparr>shader_layout_cache = [], shader_cache = []\<rparr>,
        pipeline' = \<lparr>pipeline_layout_cache = [], pipeline_cache = []\<rparr>,
        descriptor' = \<lparr>pool = []\<rparr>, resource' = []\<rparr> = Inl Internal_Assert \<and>
   device False \<lparr>adapter' = 0, device' = 0, queue' = 0, command' = [],
        shader' = \<lparr>shader_layout_cache = [], shader_cache = []\<rparr>,
        pipeline' = \<lparr>pipeline_layout_cache = [], pipeline_cache = []\<rparr>,
        descriptor' = \<lparr>pool = []\<rparr>, resource' = []\<rparr> = Inr 0 \<and>
   queue True \<lparr>adapter' = 0, device' = 0, queue' = 0, command' = [],
        shader' = \<lparr>shader_layout_cache = [], shader_cache = []\<rparr>,
        pipeline' = \<lparr>pipeline_layout_cache = [], pipeline_cache = []\<rparr>,
        descriptor' = \<lparr>pool = []\<rparr>, resource' = []\<rparr> = Inl Internal_Assert \<and>
   queue False \<lparr>adapter' = 0, device' = 0, queue' = 0, command' = [],
        shader' = \<lparr>shader_layout_cache = [], shader_cache = []\<rparr>,
        pipeline' = \<lparr>pipeline_layout_cache = [], pipeline_cache = []\<rparr>,
        descriptor' = \<lparr>pool = []\<rparr>, resource' = []\<rparr> = Inr 0 \<and>
   dispatch True 0
     (w_init\<lparr>heap := (heap w_init)(0 \<mapsto> \<lparr>adapter' = 0, device' = 0, queue' = 0, command' = [],
        shader' = \<lparr>shader_layout_cache = [], shader_cache = []\<rparr>,
        pipeline' = \<lparr>pipeline_layout_cache = [], pipeline_cache = []\<rparr>,
        descriptor' = \<lparr>pool = []\<rparr>, resource' = []\<rparr>)\<rparr>)
     \<lparr>buffer_handle = 100, commands = []\<rparr> [] (''hardsigmoid_'', []) (2, 1, 1) (1, 1, 1) [] [] =
   Inl (Internal_Assert,
     w_init\<lparr>heap := (heap w_init)(0 \<mapsto> \<lparr>adapter' = 0, device' = 0, queue' = 0, command' = [],
        shader' = \<lparr>shader_layout_cache = [], shader_cache = []\<rparr>,
        pipeline' = \<lparr>pipeline_layout_cache = [], pipeline_cache = []\<rparr>,
        descriptor' = \<lparr>pool = []\<rparr>, resource' = []\<rparr>)\<rparr>)"
  using device_and_queue_assert_in_debug_builds_only
    [of "\<lparr>adapter' = 0, device' = 0, queue' = 0, command' = [],
        shader' = \<lparr>shader_layout_cache = [], shader_cache = []\<rparr>,
        pipeline' = \<lparr>pipeline_layout_cache = [], pipeline_cache = []\<rparr>,
        descriptor' = \<lparr>pool = []\<rparr>, resource' = []\<rparr>" True
      "w_init\<lparr>heap := (heap w_init)(0 \<mapsto> \<lparr>adapter' = 0, device' = 0, queue' = 0, command' = [],
        shader' = \<lparr>shader_layout_cache = [], shader_cache = []\<rparr>,
        pipeline' = \<lparr>pipeline_layout_cache = [], pipeline_cache = []\<rparr>,
        descriptor' = \<lparr>pool = []\<rparr>, resource' = []\<rparr>)\<rparr>"
      0 "\<lparr>buffer_handle = 100, commands = []\<rparr>" "[]" "(''hardsigmoid_'', [])" "(2, 1, 1)"
      "(1, 1, 1)" "[]" "[]"]
  by (simp add: w_init_def)

section \<open>The singleton\<close>

text \<open>
  C8.  The result of \<open>dispatch\<close> does not depend on the object it is called on: it is
  that of the call on the singleton.  After a call that returns, every \<open>Context\<close> other
  than the singleton is as it was, and the descriptor-set layout, the pipeline layout,
  the shader module and the pipeline used are entries of the caches of the singleton,
  and the descriptor set is in the pool of the singleton.
\<close>

theorem dispatch_goes_through_the_singleton:
  "dispatch debug this w cb sig desc g l params args =
     dispatch debug (singleton w) w cb sig desc g l params args \<and>
   (dispatch debug this w cb sig desc g l params args = Inr (cb', w') \<longrightarrow>
      singleton w' = singleton w \<and>
      (a \<noteq> singleton w \<longrightarrow> heap w' a = heap w a) \<and>
      (\<exists>c' sl pl sm p ds.
         heap w' (singleton w) = Some c' \<and>
         map_of (shader_layout_cache (shader' c')) sig = Some sl \<and>
         map_of (pipeline_layout_cache (pipeline' c')) (handle sl, sizeof params) = Some pl \<and>
         map_of (shader_cache (shader' c')) desc = Some sm \<and>
         map_of (pipeline_cache (pipeline' c')) (pl, sm, l) = Some p \<and>
         set_handle ds \<in> set (pool (descriptor' c')) \<and> set_layout ds = handle sl \<and>
         commands cb' = commands cb @
           [Push_Constants pl VK_SHADER_STAGE_COMPUTE_BIT 0 (sizeof params) params,
            Bind_Pipeline p, Bind_Descriptor_Set ds, Dispatch g]))"
proof (intro conjI impI)
  show "dispatch debug this w cb sig desc g l params args =
     dispatch debug (singleton w) w cb sig desc g l params args"
    by (simp add: dispatch_def)
next
  assume d: "dispatch debug this w cb sig desc g l params args = Inr (cb', w')"
  then show "singleton w' = singleton w" by (rule dispatch_Inr_singleton)
next
  assume d: "dispatch debug this w cb sig desc g l params args = Inr (cb', w')"
    and a: "a \<noteq> singleton w"
  from d show "heap w' a = heap w a"
  proof (rule dispatch_Inr_effects)
    fix w0 c'
    assume "api_context w = (singleton w, w0)" and "heap w' = (heap w0)(singleton w \<mapsto> c')"
    with a api_context_props(6) [of w "singleton w" w0 a] show ?thesis by simp
  qed
next
  assume d: "dispatch debug this w cb sig desc g l params args = Inr (cb', w')"
  then show "\<exists>c' sl pl sm p ds.
         heap w' (singleton w) = Some c' \<and>
         map_of (shader_layout_cache (shader' c')) sig = Some sl \<and>
         map_of (pipeline_layout_cache (pipeline' c')) (handle sl, sizeof params) = Some pl \<and>
         map_of (shader_cache (shader' c')) desc = Some sm \<and>
         map_of (pipeline_cache (pipeline' c')) (pl, sm, l) = Some p \<and>
         set_handle ds \<in> set (pool (descriptor' c')) \<and> set_layout ds = handle sl \<and>
         commands cb' = commands cb @
           [Push_Constants pl VK_SHADER_STAGE_COMPUTE_BIT 0 (sizeof params) params,
            Bind_Pipeline p, Bind_Descriptor_Set ds, Dispatch g]"
  proof (rule dispatch_Inr_effects)
    fix w0 :: world and c c' sl pl sm p ds
    assume h: "heap w' = (heap w0)(singleton w \<mapsto> c')"
      and e: "map_of (shader_layout_cache (shader' c')) sig = Some sl"
        "map_of (pipeline_layout_cache (pipeline' c')) (handle sl, sizeof params) = Some pl"
        "map_of (shader_cache (shader' c')) desc = Some sm"
        "map_of (pipeline_cache (pipeline' c')) (pl, sm, l) = Some p"
      and po: "pool (descriptor' c') = pool (descriptor' c) @ [set_handle ds]"
      and ds: "ds = \<lparr>set_handle = next_handle w', set_layout = handle sl,
            set_slots = slot_count sl, bindings = zip [0..<length args] args\<rparr>"
      and cmds: "commands cb' = commands cb @ dispatch_commands pl params p ds g"
    from h have "heap w' (singleton w) = Some c'" by simp
    moreover from po have "set_handle ds \<in> set (pool (descriptor' c'))" by simp
    moreover from ds have "set_layout ds = handle sl" by simp
    ultimately show ?thesis using e cmds unfolding dispatch_commands_def by blast
  qed
qed

text \<open>
  A dispatch called on the \<open>Context\<close> at address 5, in a process whose singleton (at
  address 0) has not been constructed yet: the \<open>Context\<close> at address 5 keeps its empty
  caches and pool, and the singleton is constructed and receives the entries.
\<close>

theorem dispatch_goes_through_the_singleton_witness:
  "(5::nat) \<noteq> singleton (w_init\<lparr>heap := (heap w_init)(5 \<mapsto>
       \<lparr>adapter' = 0, device' = 11, queue' = 12, command' = [],
        shader' = \<lparr>shader_layout_cache = [], shader_cache = []\<rparr>,
        pipeline' = \<lparr>pipeline_layout_cache = [], pipeline_cache = []\<rparr>,
        descriptor' = \<lparr>pool = []\<rparr>, resource' = []\<rparr>), next_handle := 12\<rparr>) \<and>
   (case dispatch True 5
        (w_init\<lparr>heap := (heap w_init)(5 \<mapsto>
           \<lparr>adapter' = 0, device' = 11, queue' = 12, command' = [],
            shader' = \<lparr>shader_layout_cache = [], shader_cache = []\<rparr>,
            pipeline' = \<lparr>pipeline_layout_cache = [], pipeline_cache = []\<rparr>,
            descriptor' = \<lparr>pool = []\<rparr>, resource' = []\<rparr>), next_handle := 12\<rparr>)
        \<lparr>buffer_handle = 100, commands = []\<rparr>
        [(Storage_Image, 0x20, 1), (Uniform_Buffer, 0x20, 1)] (''hardsigmoid_'', [])
        (2, 1, 1) (1, 1, 1) [2, 0, 0, 0] [Resource_Image 50, Resource_Uniform 51] of
      Inl _ \<Rightarrow> False
    | Inr (cb', w') \<Rightarrow>
        heap w' 5 = Some
          \<lparr>adapter' = 0, device' = 11, queue' = 12, command' = [],
           shader' = \<lparr>shader_layout_cache = [], shader_cache = []\<rparr>,
           pipeline' = \<lparr>pipeline_layout_cache = [], pipeline_cache = []\<rparr>,
           descriptor' = \<lparr>pool = []\<rparr>, resource' = []\<rparr> \<and>
        heap w' 0 = Some
          \<lparr>adapter' = 0, device' = 13, queue' = 14, command' = [],
           shader' = \<lparr>shader_layout_cache =
               [([(Storage_Image, 0x20, 1), (Uniform_Buffer, 0x20, 1)], \<lparr>handle = 15, slot_count = 2\<rparr>)],
             shader_cache = [((''hardsigmoid_'', []), 17)]\<rparr>,
           pipeline' = \<lparr>pipeline_layout_cache = [((15, 4), 16)],
             pipeline_cache = [((16, 17, 1, 1, 1), 18)]\<rparr>,
           descriptor' = \<lparr>pool = [19]\<rparr>, resource' = []\<rparr>)"
proof -
  let ?w = "w_init\<lparr>heap := (heap w_init)(5 \<mapsto>
       \<lparr>adapter' = 0, device' = 11, queue' = 12, command' = [],
        shader' = \<lparr>shader_layout_cache = [], shader_cache = []\<rparr>,
        pipeline' = \<lparr>pipeline_layout_cache = [], pipeline_cache = []\<rparr>,
        descriptor' = \<lparr>pool = []\<rparr>, resource' = []\<rparr>), next_handle := 12\<rparr>"
  let ?r = "dispatch True 5 ?w \<lparr>buffer_handle = 100, commands = []\<rparr>
        [(Storage_Image, 0x20, 1), (Uniform_Buffer, 0x20, 1)] (''hardsigmoid_'', [])
        (2, 1, 1) (1, 1, 1) [2, 0, 0, 0] [Resource_Image 50, Resource_Uniform 51]"
  have d: "?r = Inr (fst (projr ?r), snd (projr ?r))"
    by (simp add: dispatch_eval)
  have a: "(5::nat) \<noteq> singleton ?w" by (simp add: w_init_def)
  from dispatch_goes_through_the_singleton
    [of True 5 ?w "\<lparr>buffer_handle = 100, commands = []\<rparr>"
      "[(Storage_Image, 0x20, 1), (Uniform_Buffer, 0x20, 1)]" "(''hardsigmoid_'', [])"
      "(2, 1, 1)" "(1, 1, 1)" "[2, 0, 0, 0]" "[Resource_Image 50, Resource_Uniform 51]"
      "fst (projr ?r)" "snd (projr ?r)" 5] d a
  have "heap (snd (projr ?r)) 5 = heap ?w 5" by blast
  then show ?thesis
    by (simp add: dispatch_eval)
qed

section \<open>The push constants\<close>

text \<open>
  C10.  After a call of \<open>dispatch\<close> that returns, the first operation it recorded
  pushes the whole parameter block, \<open>sizeof params\<close> bytes at offset 0 for the compute
  stage, against the pipeline layout that the pipeline-layout cache of the singleton
  holds for the key made of the descriptor-set layout and that same \<open>sizeof params\<close>;
  and the pipeline bound next is the entry of the pipeline cache for that pipeline
  layout, the shader module and the local work group size.
\<close>

theorem dispatch_pushes_the_size_of_the_layout:
  assumes "dispatch debug this w cb sig desc g l params args = Inr (cb', w')"
  shows "\<exists>c' sl pl sm p.
     commands cb' ! length (commands cb) =
       Push_Constants pl VK_SHADER_STAGE_COMPUTE_BIT 0 (sizeof params) params \<and>
     length params = sizeof params \<and>
     commands cb' ! (length (commands cb) + 1) = Bind_Pipeline p \<and>
     heap w' (singleton w') = Some c' \<and>
     map_of (shader_layout_cache (shader' c')) sig = Some sl \<and>
     map_of (pipeline_layout_cache (pipeline' c')) (handle sl, sizeof params) = Some pl \<and>
     map_of (shader_cache (shader' c')) desc = Some sm \<and>
     map_of (pipeline_cache (pipeline' c')) (pl, sm, l) = Some p"
  using assms
proof (rule dispatch_Inr_effects)
  fix w0 :: world and c' sl pl sm p ds
  assume h: "heap w' = (heap w0)(singleton w \<mapsto> c')"
    and s: "singleton w' = singleton w"
    and e: "map_of (shader_layout_cache (shader' c')) sig = Some sl"
      "map_of (pipeline_layout_cache (pipeline' c')) (handle sl, sizeof params) = Some pl"
      "map_of (shader_cache (shader' c')) desc = Some sm"
      "map_of (pipeline_cache (pipeline' c')) (pl, sm, l) = Some p"
    and cmds: "commands cb' = commands cb @ dispatch_commands pl params p ds g"
  have "commands cb' ! length (commands cb) =
       Push_Constants pl VK_SHADER_STAGE_COMPUTE_BIT 0 (sizeof params) params"
    and "commands cb' ! (length (commands cb) + 1) = Bind_Pipeline p"
    by (simp_all add: cmds dispatch_commands_def nth_append)
  moreover have "length params = sizeof params" by (simp add: sizeof_def)
  moreover from h s have "heap w' (singleton w') = Some c'" by simp
  ultimately show ?thesis using e by blast
qed

theorem dispatch_pushes_the_size_of_the_layout_witness:
  "(case dispatch True 7 w_init \<lparr>buffer_handle = 100, commands = []\<rparr>
        [(Storage_Image, 0x20, 1), (Uniform_Buffer, 0x20, 1)] (''hardsigmoid_'', [])
        (2, 1, 1) (1, 1, 1) [2, 0, 0, 0] [Resource_Image 50, Resource_Uniform 51] of
      Inl _ \<Rightarrow> False
    | Inr (cb', w') \<Rightarrow>
        commands cb' ! 0 = Push_Constants 4 0x20 0 4 [2, 0, 0, 0] \<and>
        commands cb' ! 1 = Bind_Pipeline 6 \<and>
        map_option (pipeline_layout_cache \<circ> pipeline') (heap w' 0) = Some [((3, 4), 4)] \<and>
        map_option (pipeline_cache \<circ> pipeline') (heap w' 0) = Some [((4, 5, 1, 1, 1), 6)])"
proof -
  let ?r = "dispatch True 7 w_init \<lparr>buffer_handle = 100, commands = []\<rparr>
        [(Storage_Image, 0x20, 1), (Uniform_Buffer, 0x20, 1)] (''hardsigmoid_'', [])
        (2, 1, 1) (1, 1, 1) [2, 0, 0, 0] [Resource_Image 50, Resource_Uniform 51]"
  have d: "?r = Inr (fst (projr ?r), snd (projr ?r))"
    by (simp add: dispatch_eval)
  from dispatch_pushes_the_size_of_the_layout [OF d] show ?thesis
    by (simp add: dispatch_eval)
qed

section \<open>The lifetime of the members\<close>

lemma construct_take: "\<exists>k\<le>length ms. construct throws ms = take k ms"
proof (induction ms)
  case Nil
  show ?case by simp
next
  case (Cons m ms)
  show ?case
  proof (cases "throws m")
    case True
    then have "construct throws (m # ms) = take 0 (m # ms)" by simp
    then show ?thesis by blast
  next
    case False
    from Cons.IH obtain k where "k \<le> length ms" "construct throws ms = take k ms" by blast
    with False have "Suc k \<le> length (m # ms)" "construct throws (m # ms) = take (Suc k) (m # ms)"
      by simp_all
    then show ?thesis by blast
  qed
qed

lemma teardown_cases:
  "teardown throws \<in> set (map (\<lambda>k. rev (take k members)) [0..<9])"
proof -
  obtain k where k: "k \<le> length members" "construct throws members = take k members"
    using construct_take by blast
  from k(1) have "k \<in> set [0..<9]" by (simp add: members_def)
  with k(2) show ?thesis by (auto simp: teardown_def destroy_def simp del: upt_Suc)
qed

text \<open>
  C7.  The members of a \<open>Context\<close> are released in the reverse order of their
  construction, whichever construction throws, if any.  A \<open>Context\<close> that was
  constructed completely releases the resource, descriptor, pipeline, shader and command
  subsystems, the queue, the device and the adapter, in this order.  In every teardown,
  also after a construction that threw, the descriptor subsystem, when it was
  constructed, is released before the pipeline subsystem; the pipeline subsystem before
  the shader subsystem; the shader subsystem before the command subsystem; the command
  subsystem before the queue and the device; the queue before the device; and the
  device before the adapter.
\<close>

theorem members_are_released_in_reverse_order:
  "teardown throws = rev (construct throws members) \<and>
   teardown (\<lambda>_. False) =
     [Resource_member, Descriptor_member, Pipeline_member, Shader_member,
      Command_member, Queue_member, Device_member, Adapter_member] \<and>
   (Descriptor_member \<in> set (teardown throws) \<longrightarrow>
      released_before Descriptor_member Pipeline_member (teardown throws)) \<and>
   (Pipeline_member \<in> set (teardown throws) \<longrightarrow>
      released_before Pipeline_member Shader_member (teardown throws)) \<and>
   (Shader_member \<in> set (teardown throws) \<longrightarrow>
      released_before Shader_member Command_member (teardown throws)) \<and>
   (Command_member \<in> set (teardown throws) \<longrightarrow>
      released_before Command_member Queue_member (teardown throws) \<and>
      released_before Command_member Device_member (teardown throws)) \<and>
   (Queue_member \<in> set (teardown throws) \<longrightarrow>
      released_before Queue_member Device_member (teardown throws)) \<and>
   (Device_member \<in> set (teardown throws) \<longrightarrow>
      released_before Device_member Adapter_member (teardown throws))"
proof -
  have "teardown throws = rev (construct throws members)"
    by (simp add: teardown_def destroy_def)
  moreover have "teardown (\<lambda>_. False) =
     [Resource_member, Descriptor_member, Pipeline_member, Shader_member,
      Command_member, Queue_member, Device_member, Adapter_member]"
    by (simp add: teardown_def destroy_def members_def)
  moreover have "(Descriptor_member \<in> set (teardown throws) \<longrightarrow>
      released_before Descriptor_member Pipeline_member (teardown throws)) \<and>
   (Pipeline_member \<in> set (teardown throws) \<longrightarrow>
      released_before Pipeline_member Shader_member (teardown throws)) \<and>
   (Shader_member \<in> set (teardown throws) \<longrightarrow>
      released_before Shader_member Command_member (teardown throws)) \<and>
   (Command_member \<in> set (teardown throws) \<longrightarrow>
      released_before Command_member Queue_member (teardown throws) \<and>
      released_before Command_member Device_member (teardown throws)) \<and>
   (Queue_member \<in> set (teardown throws) \<longrightarrow>
      released_before Queue_member Device_member (teardown throws)) \<and>
   (Device_member \<in> set (teardown throws) \<longrightarrow>
      released_before Device_member Adapter_member (teardown throws))"
    using teardown_cases [of throws]
    by (auto simp: members_def released_before_def upt_conv_Cons simp del: upt_Suc)
  ultimately show ?thesis by blast
qed

theorem members_are_released_in_reverse_order_witness:
  "teardown (\<lambda>m. m = Resource_member) =
     [Descriptor_member, Pipeline_member, Shader_member, Command_member, Queue_member,
      Device_member, Adapter_member] \<and>
   Descriptor_member \<in> set (teardown (\<lambda>m. m = Resource_member)) \<and>
   released_before Descriptor_member Pipeline_member (teardown (\<lambda>m. m = Resource_member)) \<and>
   released_before Pipeline_member Shader_member (teardown (\<lambda>m. m = Resource_member)) \<and>
   released_before Shader_member Command_member (teardown (\<lambda>m. m = Resource_member)) \<and>
   released_before Command_member Queue_member (teardown (\<lambda>m. m = Resource_member)) \<and>
   released_before Command_member Device_member (teardown (\<lambda>m. m = Resource_member)) \<and>
   released_before Queue_member Device_member (teardown (\<lambda>m. m = Resource_member)) \<and>
   released_before Device_member Adapter_member (teardown (\<lambda>m. m = Resource_member))"
proof -
  have t: "teardown (\<lambda>m. m = Resource_member) =
     [Descriptor_member, Pipeline_member, Shader_member, Command_member, Queue_member,
      Device_member, Adapter_member]"
    by (simp add: teardown_def destroy_def members_def)
  have m: "Descriptor_member \<in> set (teardown (\<lambda>m. m = Resource_member))"
    "Pipeline_member \<in> set (teardown (\<lambda>m. m = Resource_member))"
    "Shader_member \<in> set (teardown (\<lambda>m. m = Resource_member))"
    "Command_member \<in> set (teardown (\<lambda>m. m = Resource_member))"
    "Queue_member \<in> set (teardown (\<lambda>m. m = Resource_member))"
    "Device_member \<in> set (teardown (\<lambda>m. m = Resource_member))"
    by (simp_all add: t)
  from members_are_released_in_reverse_order [of "\<lambda>m. m = Resource_member"] m t
  show ?thesis by blast
qed

end
